theory Spec2Isabelle
  imports Main "HOL-Library.Word"
begin

unbundle bit_operations_syntax

section \<open>Controller state flags (packages/runtime/src/lifecycle.ts)\<close>

text \<open>
  \<^verbatim>\<open>State\<close> is a \<^verbatim>\<open>const enum\<close> of bit flags. JavaScript's \<^verbatim>\<open>&\<close> works on
  32-bit integers, so a state is a \<open>32 word\<close>.
\<close>

type_synonym State = "32 word"

definition State_none :: State where "State_none = 0b0000000000"
definition State_activating :: State where "State_activating = 0b0000000001"
definition State_beforeBindCalled :: State where "State_beforeBindCalled = 0b0000000010"
definition State_activateChildrenCalled :: State where "State_activateChildrenCalled = 0b0000000100"
definition State_activated :: State where "State_activated = 0b0000001110"
definition State_deactivating :: State where "State_deactivating = 0b0000010000"
definition State_beforeDetachCalled :: State where "State_beforeDetachCalled = 0b0000100000"
definition State_deactivateChildrenCalled :: State where "State_deactivateChildrenCalled = 0b0001000000"
definition State_deactivated :: State where "State_deactivated = 0b0011100000"
definition State_released :: State where "State_released = 0b0100000000"
definition State_disposed :: State where "State_disposed = 0b1000000000"

text \<open>\<^verbatim>\<open>(state & flag) === flag\<close>, the test \<^verbatim>\<open>stringifyState\<close> applies to every flag.\<close>

definition has_flag :: "State \<Rightarrow> State \<Rightarrow> bool" where
  "has_flag state flag = (state AND flag = flag)"

text \<open>The \<^verbatim>\<open>names\<close> array of \<^verbatim>\<open>stringifyState\<close>, built by the pushes in source order.\<close>

definition state_names :: "State \<Rightarrow> string list" where
  "state_names state =
     (if has_flag state State_activating then [''activating''] else []) @
     (if has_flag state State_activated then [''activated'']
      else (if has_flag state State_beforeBindCalled then [''beforeBindCalled''] else []) @
           (if has_flag state State_activateChildrenCalled then [''activateChildrenCalled''] else [])) @
     (if has_flag state State_deactivating then [''deactivating''] else []) @
     (if has_flag state State_deactivated then [''deactivated'']
      else (if has_flag state State_beforeDetachCalled then [''beforeDetachCalled''] else []) @
           (if has_flag state State_deactivateChildrenCalled then [''deactivateChildrenCalled''] else [])) @
     (if has_flag state State_released then [''released''] else []) @
     (if has_flag state State_disposed then [''disposed''] else [])"

text \<open>\<^verbatim>\<open>Array.prototype.join\<close> on an array of strings.\<close>

fun join :: "string \<Rightarrow> string list \<Rightarrow> string" where
  "join sep [] = []"
| "join sep [x] = x"
| "join sep (x # y # ys) = x @ sep @ join sep (y # ys)"

definition stringifyState :: "State \<Rightarrow> string" where
  "stringifyState state =
     (let names = state_names state in if length names = 0 then ''none'' else join ''|'' names)"

section \<open>JavaScript values and operators\<close>

text \<open>
  The bindings hold values of type \<^verbatim>\<open>unknown\<close> and apply \<^verbatim>\<open>+\<close>, \<^verbatim>\<open>!=\<close>, \<^verbatim>\<open>===\<close>,
  \<^verbatim>\<open>!==\<close>, \<^verbatim>\<open>String(...)\<close> and \<^verbatim>\<open>instanceof\<close> to them. The fragment of the language
  modelled here: numbers are the integers and \<^verbatim>\<open>NaN\<close>; an object is an \<^verbatim>\<open>Array\<close>, a platform
  \<^verbatim>\<open>Node\<close> or some other object, each with a reference (its identity); nodes and other
  objects carry the string their \<^verbatim>\<open>toString()\<close> returns, and every object converts to a
  primitive through \<^verbatim>\<open>toString()\<close>. Symbols, big integers, fractions and infinities are
  left out.
\<close>

datatype jsval =
    JUndefined
  | JNull
  | JBool bool
  | JNum int
  | JNaN
  | JStr string
  | JArray nat "jsval list"
  | JNode nat string
  | JObj nat string

definition digit_char :: "nat \<Rightarrow> char" where
  "digit_char d = ''0123456789'' ! d"

fun nat_to_str :: "nat \<Rightarrow> string" where
  "nat_to_str n = (if n < 10 then [digit_char n] else nat_to_str (n div 10) @ [digit_char (n mod 10)])"

declare nat_to_str.simps [simp del]

definition int_to_str :: "int \<Rightarrow> string" where
  "int_to_str i = (if i < 0 then CHR ''-'' # nat_to_str (nat (- i)) else nat_to_str (nat i))"

text \<open>
  \<^verbatim>\<open>ToString(ToPrimitive(v))\<close>, the conversion that \<^verbatim>\<open>+\<close> with a string operand and
  \<^verbatim>\<open>String(v)\<close> apply. An array converts as \<^verbatim>\<open>join(",")\<close> does: \<^verbatim>\<open>undefined\<close> and
  \<^verbatim>\<open>null\<close> elements give the empty string. An integer converts to its decimal digits, as
  the language prints every integer below \<open>10^21\<close> in magnitude (from there on it prints an
  exponent, which is not modelled).
\<close>

fun to_str :: "jsval \<Rightarrow> string" where
  "to_str JUndefined = ''undefined''"
| "to_str JNull = ''null''"
| "to_str (JBool b) = (if b then ''true'' else ''false'')"
| "to_str (JNum i) = int_to_str i"
| "to_str JNaN = ''NaN''"
| "to_str (JStr s) = s"
| "to_str (JArray r xs) =
     join '','' (map (\<lambda>x. if x = JUndefined \<or> x = JNull then [] else to_str x) xs)"
| "to_str (JNode r s) = s"
| "to_str (JObj r s) = s"

definition is_object :: "jsval \<Rightarrow> bool" where
  "is_object v = (case v of JArray r xs \<Rightarrow> True | JNode r s \<Rightarrow> True | JObj r s \<Rightarrow> True | _ \<Rightarrow> False)"

definition is_string :: "jsval \<Rightarrow> bool" where
  "is_string v = (case v of JStr s \<Rightarrow> True | _ \<Rightarrow> False)"

text \<open>\<^verbatim>\<open>v instanceof Array\<close> and \<^verbatim>\<open>v instanceof platform.Node\<close>.\<close>

definition instanceof_Array :: "jsval \<Rightarrow> bool" where
  "instanceof_Array v = (case v of JArray r xs \<Rightarrow> True | _ \<Rightarrow> False)"

definition instanceof_Node :: "jsval \<Rightarrow> bool" where
  "instanceof_Node v = (case v of JNode r s \<Rightarrow> True | _ \<Rightarrow> False)"

definition to_primitive :: "jsval \<Rightarrow> jsval" where
  "to_primitive v = (if is_object v then JStr (to_str v) else v)"

text \<open>
  \<^verbatim>\<open>ToNumber\<close> on \<^verbatim>\<open>undefined\<close>, \<^verbatim>\<open>null\<close>, booleans and numbers, with \<open>None\<close> for
  \<^verbatim>\<open>NaN\<close>. The operator \<^verbatim>\<open>+\<close> converts to numbers only when neither operand is a string
  after \<^verbatim>\<open>ToPrimitive\<close>, so no string and no object reaches this conversion.
\<close>

definition nonstring_to_number :: "jsval \<Rightarrow> int option" where
  "nonstring_to_number v =
     (case v of
        JUndefined \<Rightarrow> None
      | JNull \<Rightarrow> Some 0
      | JBool b \<Rightarrow> Some (if b then 1 else 0)
      | JNum i \<Rightarrow> Some i
      | _ \<Rightarrow> None)"

text \<open>
  The operator \<^verbatim>\<open>+\<close>: both operands are converted to primitives; if either is a string
  the result is the concatenation of their strings, otherwise the sum of their numbers.
\<close>

definition js_add :: "jsval \<Rightarrow> jsval \<Rightarrow> jsval" where
  "js_add a b =
     (let pa = to_primitive a; pb = to_primitive b in
      if is_string pa \<or> is_string pb then JStr (to_str pa @ to_str pb)
      else (case (nonstring_to_number pa, nonstring_to_number pb) of
              (Some x, Some y) \<Rightarrow> JNum (x + y)
            | _ \<Rightarrow> JNaN))"

text \<open>The operator \<^verbatim>\<open>===\<close>: same type and same value; objects by reference; \<^verbatim>\<open>NaN\<close> equals nothing.\<close>

fun strict_eq :: "jsval \<Rightarrow> jsval \<Rightarrow> bool" where
  "strict_eq JUndefined JUndefined = True"
| "strict_eq JNull JNull = True"
| "strict_eq (JBool a) (JBool b) = (a = b)"
| "strict_eq (JNum a) (JNum b) = (a = b)"
| "strict_eq (JStr a) (JStr b) = (a = b)"
| "strict_eq (JArray r xs) (JArray r' ys) = (r = r')"
| "strict_eq (JNode r s) (JNode r' s') = (r = r')"
| "strict_eq (JObj r s) (JObj r' s') = (r = r')"
| "strict_eq a b = False"

text \<open>
  The operator \<^verbatim>\<open>==\<close> compares a number and a string as numbers, through \<^verbatim>\<open>ToNumber\<close>
  on the string. That conversion reads every numeric literal of the language (fractions,
  exponents, hexadecimal, octal and binary digits, white space around them) and rounds to a
  double, so it is not written out here: it is a parameter \<open>s2n\<close> of the comparison,
  with \<open>s2n s = Some i\<close> when the string \<open>s\<close> converts to the number \<open>i\<close>, an
  integer, and \<open>s2n s = None\<close> when it converts to \<^verbatim>\<open>NaN\<close> or to a number that is not
  an integer, which no number of this fragment equals. What is proved of \<^verbatim>\<open>==\<close> is proved
  for every such function, the one of the language among them.
\<close>

text \<open>
  The operator \<^verbatim>\<open>==\<close> on primitives: \<^verbatim>\<open>null\<close> and \<^verbatim>\<open>undefined\<close> equal each other and
  nothing else; a boolean is compared as its number; a number and a string are
  compared as numbers.
\<close>

definition bool_to_num :: "jsval \<Rightarrow> jsval" where
  "bool_to_num v = (case v of JBool b \<Rightarrow> JNum (if b then 1 else 0) | _ \<Rightarrow> v)"

fun loose_eq_num :: "(string \<Rightarrow> int option) \<Rightarrow> jsval \<Rightarrow> jsval \<Rightarrow> bool" where
  "loose_eq_num s2n (JNum a) (JStr s) = (s2n s = Some a)"
| "loose_eq_num s2n (JStr s) (JNum a) = (s2n s = Some a)"
| "loose_eq_num s2n JNaN (JStr s) = False"
| "loose_eq_num s2n (JStr s) JNaN = False"
| "loose_eq_num s2n JUndefined JNull = True"
| "loose_eq_num s2n JNull JUndefined = True"
| "loose_eq_num s2n a b = strict_eq a b"

definition loose_eq_prim :: "(string \<Rightarrow> int option) \<Rightarrow> jsval \<Rightarrow> jsval \<Rightarrow> bool" where
  "loose_eq_prim s2n a b = loose_eq_num s2n (bool_to_num a) (bool_to_num b)"

text \<open>
  The operator \<^verbatim>\<open>==\<close>: two objects are compared by reference; an object against
  \<^verbatim>\<open>null\<close> or \<^verbatim>\<open>undefined\<close> is unequal; an object against any other primitive is
  converted to its primitive first.
\<close>

definition loose_eq :: "(string \<Rightarrow> int option) \<Rightarrow> jsval \<Rightarrow> jsval \<Rightarrow> bool" where
  "loose_eq s2n a b =
     (if is_object a \<and> is_object b then strict_eq a b
      else if is_object a
        then (b \<noteq> JUndefined \<and> b \<noteq> JNull \<and> loose_eq_prim s2n (to_primitive a) b)
      else if is_object b
        then (a \<noteq> JUndefined \<and> a \<noteq> JNull \<and> loose_eq_prim s2n a (to_primitive b))
      else loose_eq_prim s2n a b)"

section \<open>Collaborators of the bindings\<close>

text \<open>
  \<^verbatim>\<open>LifecycleFlags\<close>, \<^verbatim>\<open>AccessorType\<close> and \<^verbatim>\<open>BindingMode\<close> are bit-flag enums of
  \<^verbatim>\<open>@aurelia/runtime\<close>, tested with \<^verbatim>\<open>&\<close>. Their declarations are not among the sources
  at hand, so the members the bindings use are parameters of the model, collected in one
  record that every operation takes as its first argument. The record also holds the
  conversion of strings to numbers that \<^verbatim>\<open>!=\<close> applies (the parameter \<open>s2n\<close> above).
\<close>

type_synonym LifecycleFlags = "32 word"
type_synonym AccessorType = "32 word"
type_synonym BindingMode = "32 word"

record runtime_consts =
  LifecycleFlags_none :: LifecycleFlags
  LifecycleFlags_fromBind :: LifecycleFlags
  AccessorType_Layout :: AccessorType
  BindingMode_oneTime :: BindingMode
  BindingMode_toView :: BindingMode
  StringToNumber :: "string \<Rightarrow> int option"

text \<open>\<^verbatim>\<open>ExpressionKind\<close>: only \<^verbatim>\<open>AccessScope\<close> is told apart from the other kinds.\<close>

datatype ExpressionKind = AccessScope | OtherKind nat

text \<open>
  A \<^verbatim>\<open>Scope\<close> is compared by reference (\<^verbatim>\<open>this.$scope === scope\<close>), so it is a
  reference here; the values reachable from the scopes are in a store.
\<close>

type_synonym Scope = nat
type_synonym store = "Scope \<Rightarrow> string \<Rightarrow> jsval"

text \<open>What a binding can subscribe to: a property of an object, or a collection.\<close>

datatype observable = Property nat string | Collection nat

text \<open>
  An expression (\<^verbatim>\<open>IsExpression\<close>): its \<^verbatim>\<open>$kind\<close>, \<^verbatim>\<open>hasBind\<close>, \<^verbatim>\<open>hasUnbind\<close>, and
  \<^verbatim>\<open>evaluate(flags, scope, hostScope, locator, connectable)\<close>, which returns the value and
  reports each observable it reads to the connectable, when that is not \<^verbatim>\<open>null\<close>. The
  service locator plays no part in the bindings' own code and is left out.
\<close>

record expression =
  kind :: ExpressionKind
  hasBind :: bool
  hasUnbind :: bool
  evaluate :: "LifecycleFlags \<Rightarrow> store \<Rightarrow> Scope option \<Rightarrow> Scope option \<Rightarrow> jsval \<times> observable list"

text \<open>
  Calls that leave the binding: they are recorded, in order, in the trace of the world.
\<close>

datatype event =
    Evaluate bool
  | ObsClear bool
  | ExprBind
  | ExprUnbind
  | SetValue jsval LifecycleFlags
  | SetTextContent string
  | InsertBefore nat
  | RemoveChild nat
  | UpdateSource jsval LifecycleFlags

subsection \<open>The observer record of a connectable binding\<close>

text \<open>
  Modelled from the spec: the \<^verbatim>\<open>connectable\<close> mixin and its observer record
  (\<^verbatim>\<open>this.obs\<close>, with \<^verbatim>\<open>version\<close>, \<^verbatim>\<open>count\<close> and \<^verbatim>\<open>clear\<close>) are part of
  \<^verbatim>\<open>@aurelia/runtime\<close> and not among the sources at hand. The record maps each observed
  dependency to the version at which it was last seen; observing sets the entry to the
  current version, creating it if new; \<^verbatim>\<open>clear(false)\<close> removes the entries whose
  version is stale, \<^verbatim>\<open>clear(true)\<close> removes them all.
\<close>

record ObserverRecord =
  version :: nat
  slots :: "(observable \<times> nat) list"

definition obs_count :: "ObserverRecord \<Rightarrow> nat" where
  "obs_count r = length (slots r)"

definition obs_observe :: "observable \<Rightarrow> ObserverRecord \<Rightarrow> ObserverRecord" where
  "obs_observe d r =
     (if d \<in> fst ` set (slots r)
      then r\<lparr>slots := map (\<lambda>(d', v). if d' = d then (d', version r) else (d', v)) (slots r)\<rparr>
      else r\<lparr>slots := slots r @ [(d, version r)]\<rparr>)"

definition obs_clear :: "bool \<Rightarrow> ObserverRecord \<Rightarrow> ObserverRecord" where
  "obs_clear all r =
     (if all then r\<lparr>slots := []\<rparr>
      else r\<lparr>slots := filter (\<lambda>(d, v). v = version r) (slots r)\<rparr>)"

subsection \<open>The task queue\<close>

text \<open>
  Modelled from the spec: \<^verbatim>\<open>TaskQueue\<close> and \<^verbatim>\<open>ITask\<close> are part of \<^verbatim>\<open>@aurelia/kernel\<close>
  and not among the sources at hand. A task is pending, run or canceled;
  \<^verbatim>\<open>queueTask(work, options)\<close> appends a pending task and returns its handle (here its
  position in the queue); \<^verbatim>\<open>cancel()\<close> before execution prevents the work from running and
  is without effect afterwards; a flush runs the tasks that are pending, in the order in
  which they were queued. The work of a task is the closure the binding passed, kept as the
  values it captured.
\<close>

datatype TaskStatus = Pending | Run | Canceled

record QueueTaskOptions =
  reusable :: bool
  preempt :: bool

record 'c Task =
  task_status :: TaskStatus
  task_work :: 'c
  task_options :: QueueTaskOptions

type_synonym 'c TaskQueue = "'c Task list"

definition queueTask :: "'c \<Rightarrow> QueueTaskOptions \<Rightarrow> 'c TaskQueue \<Rightarrow> nat \<times> 'c TaskQueue" where
  "queueTask work opts q =
     (length q, q @ [\<lparr>task_status = Pending, task_work = work, task_options = opts\<rparr>])"

definition cancel :: "nat \<Rightarrow> 'c TaskQueue \<Rightarrow> 'c TaskQueue" where
  "cancel h q =
     (if h < length q \<and> task_status (q ! h) = Pending
      then q[h := (q ! h)\<lparr>task_status := Canceled\<rparr>]
      else q)"

text \<open>\<^verbatim>\<open>task?.cancel()\<close> on a field that holds a handle or \<^verbatim>\<open>null\<close>.\<close>

definition cancel_opt :: "nat option \<Rightarrow> 'c TaskQueue \<Rightarrow> 'c TaskQueue" where
  "cancel_opt t q = (case t of None \<Rightarrow> q | Some h \<Rightarrow> cancel h q)"

definition pending_tasks :: "'c TaskQueue \<Rightarrow> nat list" where
  "pending_tasks q = filter (\<lambda>h. task_status (q ! h) = Pending) [0..<length q]"

section \<open>Interpolation and content bindings (the binding module in settings.ts)\<close>

text \<open>\<^verbatim>\<open>const queueTaskOptions = { reusable: false, preempt: true }\<close>\<close>

definition queueTaskOptions :: QueueTaskOptions where
  "queueTaskOptions = \<lparr>reusable = False, preempt = True\<rparr>"

text \<open>
  The fields of \<^verbatim>\<open>ContentBinding\<close>. \<^verbatim>\<open>ContentBinding2\<close> declares the same fields (its
  \<^verbatim>\<open>target\<close> text node and its platform are in the world below), so both classes share
  this record; \<^verbatim>\<open>interceptor\<close> is \<^verbatim>\<open>this\<close>.
\<close>

record ContentBinding =
  cb_sourceExpression :: expression
  cb_mode :: BindingMode
  cb_value :: jsval
  cb_scope :: "Scope option"
  cb_hostScope :: "Scope option"
  cb_task :: "nat option"
  cb_isBound :: bool
  cb_obs :: ObserverRecord

record InterpolationBinding =
  ib_isBound :: bool
  ib_scope :: "Scope option"
  ib_hostScope :: "Scope option"
  partBindings :: "ContentBinding list"
  interpolation_parts :: "string list"
  ib_mode :: BindingMode
  targetObserver_type :: AccessorType
  ib_task :: "nat option"

text \<open>
  The world of one interpolation binding: the store its expressions read, the binding,
  its task queue (a task's work is the closure of \<^verbatim>\<open>updateTarget\<close>, which captured
  \<^verbatim>\<open>result\<close> and \<^verbatim>\<open>flags\<close>), the current value of the target property, and the trace.
\<close>

record ib_world =
  iw_store :: store
  iw_binding :: InterpolationBinding
  iw_taskQueue :: "(jsval \<times> LifecycleFlags) TaskQueue"
  iw_target :: jsval
  iw_trace :: "event list"

subsection \<open>InterpolationBinding.updateTarget\<close>

text \<open>\<^verbatim>\<open>staticParts[i]\<close>: \<^verbatim>\<open>undefined\<close> when \<open>i\<close> is out of range.\<close>

definition part_at :: "string list \<Rightarrow> nat \<Rightarrow> jsval" where
  "part_at staticParts i = (if i < length staticParts then JStr (staticParts ! i) else JUndefined)"

text \<open>
  \<^verbatim>\<open>for (let i = 0; ii > i; ++i) { result += partBindings[i].value + staticParts[i + 1]; }\<close>
\<close>

function concat_loop :: "ContentBinding list \<Rightarrow> string list \<Rightarrow> nat \<Rightarrow> jsval \<Rightarrow> jsval" where
  "concat_loop pbs staticParts i result =
     (if length pbs > i
      then concat_loop pbs staticParts (i + 1)
             (js_add result (js_add (cb_value (pbs ! i)) (part_at staticParts (i + 1))))
      else result)"
  by pat_completeness auto
termination
  by (relation "measure (\<lambda>(pbs, staticParts, i, result). length pbs - i)") auto

declare concat_loop.simps [simp del]

text \<open>The value of \<^verbatim>\<open>result\<close> after the first block of \<^verbatim>\<open>updateTarget\<close>.\<close>

definition IB_result :: "InterpolationBinding \<Rightarrow> jsval" where
  "IB_result b =
     (let pbs = partBindings b;
          staticParts = interpolation_parts b;
          ii = length pbs
      in if ii = 1
         then js_add (js_add (part_at staticParts 0) (cb_value (pbs ! 0))) (part_at staticParts 1)
         else concat_loop pbs staticParts 0 (part_at staticParts 0))"

text \<open>
  Modelled from the spec: the accessor that \<^verbatim>\<open>observerLocator.getAccessor\<close> returns is part
  of \<^verbatim>\<open>@aurelia/runtime\<close> and not among the sources at hand. Its
  \<^verbatim>\<open>setValue(result, flags, this.target, this.targetProperty)\<close> sets the named property of
  the target.
\<close>

definition setValue :: "jsval \<Rightarrow> LifecycleFlags \<Rightarrow> ib_world \<Rightarrow> ib_world" where
  "setValue result flags w = w\<lparr>iw_target := result, iw_trace := iw_trace w @ [SetValue result flags]\<rparr>"

text \<open>
  The closure queued by \<^verbatim>\<open>updateTarget\<close>:
  \<^verbatim>\<open>() => { this.task = null; targetObserver.setValue(result, flags, ...); }\<close>
\<close>

definition IB_task_work :: "jsval \<times> LifecycleFlags \<Rightarrow> ib_world \<Rightarrow> ib_world" where
  "IB_task_work c w =
     setValue (fst c) (snd c) (w\<lparr>iw_binding := (iw_binding w)\<lparr>ib_task := None\<rparr>\<rparr>)"

definition IB_shouldQueueFlush :: "runtime_consts \<Rightarrow> LifecycleFlags \<Rightarrow> InterpolationBinding \<Rightarrow> bool" where
  "IB_shouldQueueFlush K flags b =
     ((flags AND LifecycleFlags_fromBind K) = 0 \<and>
      0 < sint (targetObserver_type b AND AccessorType_Layout K))"

definition IB_updateTarget :: "runtime_consts \<Rightarrow> jsval \<Rightarrow> LifecycleFlags \<Rightarrow> ib_world \<Rightarrow> ib_world" where
  "IB_updateTarget K v flags w =
     (let result = IB_result (iw_binding w);
          shouldQueueFlush = IB_shouldQueueFlush K flags (iw_binding w)
      in if shouldQueueFlush
         then (let task = ib_task (iw_binding w);
                   (h, q) = queueTask (result, flags) queueTaskOptions (iw_taskQueue w)
               in w\<lparr>iw_binding := (iw_binding w)\<lparr>ib_task := Some h\<rparr>,
                     iw_taskQueue := cancel_opt task q\<rparr>)
         else setValue result flags w)"

text \<open>A flush of the task queue: every task that is still pending runs once, in order.\<close>

definition IB_runTask :: "nat \<Rightarrow> ib_world \<Rightarrow> ib_world" where
  "IB_runTask h w =
     (let q = iw_taskQueue w
      in if h < length q \<and> task_status (q ! h) = Pending
         then IB_task_work (task_work (q ! h))
                (w\<lparr>iw_taskQueue := q[h := (q ! h)\<lparr>task_status := Run\<rparr>]\<rparr>)
         else w)"

definition IB_flush :: "ib_world \<Rightarrow> ib_world" where
  "IB_flush w = fold IB_runTask [0..<length (iw_taskQueue w)] w"

subsection \<open>Code shared by ContentBinding and ContentBinding2\<close>

text \<open>\<^verbatim>\<open>this.observeCollection(v)\<close>, for an array \<open>v\<close>: subscribes to the collection.\<close>

definition observeCollection :: "jsval \<Rightarrow> ContentBinding \<Rightarrow> ContentBinding" where
  "observeCollection v b =
     (case v of
        JArray r xs \<Rightarrow> b\<lparr>cb_obs := obs_observe (Collection r) (cb_obs b)\<rparr>
      | _ \<Rightarrow> b)"

definition shouldConnect :: "runtime_consts \<Rightarrow> ContentBinding \<Rightarrow> bool" where
  "shouldConnect K b = (0 < sint (cb_mode b AND BindingMode_toView K))"

definition canOptimize :: "ContentBinding \<Rightarrow> bool" where
  "canOptimize b = (kind (cb_sourceExpression b) = AccessScope \<and> obs_count (cb_obs b) = 1)"

text \<open>
  The first block of both \<^verbatim>\<open>handleChange\<close> methods, from
  \<^verbatim>\<open>const sourceExpression = this.sourceExpression\<close> to the end of
  \<^verbatim>\<open>if (!canOptimize) { ... }\<close>. It returns the value of \<^verbatim>\<open>newValue\<close> after the block, the
  binding, and the calls made.
\<close>

definition handleChange_newValue ::
  "runtime_consts \<Rightarrow> store \<Rightarrow> jsval \<Rightarrow> LifecycleFlags \<Rightarrow> ContentBinding \<Rightarrow>
     jsval \<times> ContentBinding \<times> event list" where
  "handleChange_newValue K st newValue flags b =
     (let sourceExpression = cb_sourceExpression b;
          obsRecord = cb_obs b
      in if \<not> canOptimize b
         then (let connect = shouldConnect K b;
                   obs1 = (if connect then obsRecord\<lparr>version := version obsRecord + 1\<rparr> else obsRecord);
                   (v, reads) = evaluate sourceExpression flags st (cb_scope b) (cb_hostScope b);
                   obs2 = (if connect then fold obs_observe reads obs1 else obs1);
                   obs3 = (if connect then obs_clear False obs2 else obs2)
               in (v, b\<lparr>cb_obs := obs3\<rparr>,
                   Evaluate connect # (if connect then [ObsClear False] else [])))
         else (newValue, b, []))"

text \<open>
  The body of both \<^verbatim>\<open>$bind\<close> methods after the re-bind check, from
  \<^verbatim>\<open>this.isBound = true\<close> to \<^verbatim>\<open>this.observeCollection(v)\<close>.
\<close>

definition bind_body ::
  "runtime_consts \<Rightarrow> store \<Rightarrow> LifecycleFlags \<Rightarrow> Scope \<Rightarrow> Scope option \<Rightarrow> ContentBinding \<Rightarrow>
     ContentBinding \<times> event list" where
  "bind_body K st flags scope hostScope b =
     (let b1 = b\<lparr>cb_isBound := True, cb_scope := Some scope, cb_hostScope := hostScope\<rparr>;
          evs = (if hasBind (cb_sourceExpression b1) then [ExprBind] else []);
          connect = shouldConnect K b1;
          (v, reads) = evaluate (cb_sourceExpression b1) flags st (Some scope) hostScope;
          b2 = b1\<lparr>cb_value := v,
                  cb_obs := (if connect then fold obs_observe reads (cb_obs b1) else cb_obs b1)\<rparr>;
          b3 = (if instanceof_Array v then observeCollection v b2 else b2)
      in (b3, evs @ [Evaluate connect]))"

text \<open>The body of both \<^verbatim>\<open>$unbind\<close> methods after the \<^verbatim>\<open>isBound\<close> check.\<close>

definition unbind_body :: "ContentBinding \<Rightarrow> ContentBinding \<times> event list" where
  "unbind_body b =
     (b\<lparr>cb_isBound := False, cb_scope := None, cb_hostScope := None,
        cb_obs := obs_clear True (cb_obs b)\<rparr>,
      (if hasUnbind (cb_sourceExpression b) then [ExprUnbind] else []) @ [ObsClear True])"

subsection \<open>ContentBinding, a part of an InterpolationBinding\<close>

text \<open>
  The part bindings live in \<^verbatim>\<open>owner.partBindings\<close>; an operation on one of them names it by
  its index \<open>i\<close>, and does nothing when there is no such part.
\<close>

definition set_part :: "nat \<Rightarrow> ContentBinding \<Rightarrow> ib_world \<Rightarrow> ib_world" where
  "set_part i b w =
     w\<lparr>iw_binding := (iw_binding w)\<lparr>partBindings := (partBindings (iw_binding w))[i := b]\<rparr>\<rparr>"

definition add_trace :: "event list \<Rightarrow> ib_world \<Rightarrow> ib_world" where
  "add_trace evs w = w\<lparr>iw_trace := iw_trace w @ evs\<rparr>"

definition CB_handleChange ::
  "runtime_consts \<Rightarrow> nat \<Rightarrow> jsval \<Rightarrow> jsval \<Rightarrow> LifecycleFlags \<Rightarrow> ib_world \<Rightarrow> ib_world" where
  "CB_handleChange K i newValue oldValue flags w =
     (if \<not> i < length (partBindings (iw_binding w)) then w
      else let b = partBindings (iw_binding w) ! i
      in if \<not> cb_isBound b then w
         else (let (newValue', b1, evs) = handleChange_newValue K (iw_store w) newValue flags b;
                   w1 = add_trace evs w
               in if \<not> loose_eq (StringToNumber K) newValue' (cb_value b1)
                  then (let b2 = b1\<lparr>cb_value := newValue'\<rparr>;
                            b3 = (if instanceof_Array newValue' then observeCollection newValue' b2 else b2)
                        in IB_updateTarget K newValue' flags (set_part i b3 w1))
                  else set_part i b1 w1))"

definition CB_handleCollectionChange ::
  "runtime_consts \<Rightarrow> nat \<Rightarrow> LifecycleFlags \<Rightarrow> ib_world \<Rightarrow> ib_world" where
  "CB_handleCollectionChange K i flags w = IB_updateTarget K JUndefined flags w"

definition CB_unbind :: "nat \<Rightarrow> LifecycleFlags \<Rightarrow> ib_world \<Rightarrow> ib_world" where
  "CB_unbind i flags w =
     (if \<not> i < length (partBindings (iw_binding w)) then w
      else let b = partBindings (iw_binding w) ! i
      in if \<not> cb_isBound b then w
         else (let (b', evs) = unbind_body b in set_part i b' (add_trace evs w)))"

definition CB_bind ::
  "runtime_consts \<Rightarrow> nat \<Rightarrow> LifecycleFlags \<Rightarrow> Scope \<Rightarrow> Scope option \<Rightarrow> ib_world \<Rightarrow> ib_world" where
  "CB_bind K i flags scope hostScope w =
     (if \<not> i < length (partBindings (iw_binding w)) then w
      else let b = partBindings (iw_binding w) ! i
      in if cb_isBound b \<and> cb_scope b = Some scope then w
         else (let w1 = (if cb_isBound b then CB_unbind i flags w else w);
                   (b', evs) = bind_body K (iw_store w1) flags scope hostScope
                                 (partBindings (iw_binding w1) ! i)
               in set_part i b' (add_trace evs w1)))"

subsection \<open>InterpolationBinding.$bind and $unbind\<close>

definition IB_unbind :: "LifecycleFlags \<Rightarrow> ib_world \<Rightarrow> ib_world" where
  "IB_unbind flags w =
     (if \<not> ib_isBound (iw_binding w) then w
      else (let w1 = w\<lparr>iw_binding := (iw_binding w)\<lparr>ib_isBound := False, ib_scope := None\<rparr>\<rparr>;
                w2 = fold (\<lambda>i. CB_unbind i flags) [0..<length (partBindings (iw_binding w1))] w1
            in w2\<lparr>iw_taskQueue := cancel_opt (ib_task (iw_binding w2)) (iw_taskQueue w2),
                  iw_binding := (iw_binding w2)\<lparr>ib_task := None\<rparr>\<rparr>))"

definition IB_bind ::
  "runtime_consts \<Rightarrow> LifecycleFlags \<Rightarrow> Scope \<Rightarrow> Scope option \<Rightarrow> ib_world \<Rightarrow> ib_world" where
  "IB_bind K flags scope hostScope w =
     (if ib_isBound (iw_binding w) \<and> ib_scope (iw_binding w) = Some scope then w
      else (let w1 = (if ib_isBound (iw_binding w) then IB_unbind flags w else w);
                w2 = w1\<lparr>iw_binding := (iw_binding w1)\<lparr>ib_isBound := True, ib_scope := Some scope\<rparr>\<rparr>;
                w3 = fold (\<lambda>i. CB_bind K i flags scope hostScope)
                       [0..<length (partBindings (iw_binding w2))] w2
            in IB_updateTarget K JUndefined flags w3))"

subsection \<open>ContentBinding2, the binding of a text node\<close>

text \<open>
  The world of one \<^verbatim>\<open>ContentBinding2\<close>: the store, the binding, the platform's
  \<^verbatim>\<open>domWriteQueue\<close> (a task's work is the closure of \<^verbatim>\<open>handleChange\<close>, which captured
  \<^verbatim>\<open>newValue\<close> and \<^verbatim>\<open>flags\<close>), the \<^verbatim>\<open>textContent\<close> of the target text node, whether the
  target has a parent node, the nodes that this parent holds ahead of the target, and the
  trace. A node has a parent exactly when it is one of those nodes.
\<close>

record cb2_world =
  cw_store :: store
  cw_binding :: ContentBinding
  cw_domWriteQueue :: "(jsval \<times> LifecycleFlags) TaskQueue"
  cw_textContent :: string
  cw_target_has_parent :: bool
  cw_before_target :: "nat list"
  cw_trace :: "event list"

text \<open>\<^verbatim>\<open>oldValue.parentNode?.removeChild(oldValue)\<close>\<close>

definition removeChild :: "nat \<Rightarrow> cb2_world \<Rightarrow> cb2_world" where
  "removeChild r w =
     (if r \<in> set (cw_before_target w)
      then w\<lparr>cw_before_target := removeAll r (cw_before_target w),
             cw_trace := cw_trace w @ [RemoveChild r]\<rparr>
      else w)"

text \<open>\<^verbatim>\<open>target.parentNode?.insertBefore(value, target)\<close>: a node that is already there moves.\<close>

definition insertBefore :: "nat \<Rightarrow> cb2_world \<Rightarrow> cb2_world" where
  "insertBefore r w =
     (if cw_target_has_parent w
      then w\<lparr>cw_before_target := removeAll r (cw_before_target w) @ [r],
             cw_trace := cw_trace w @ [InsertBefore r]\<rparr>
      else w)"

definition set_textContent :: "string \<Rightarrow> cb2_world \<Rightarrow> cb2_world" where
  "set_textContent s w = w\<lparr>cw_textContent := s, cw_trace := cw_trace w @ [SetTextContent s]\<rparr>"

definition node_ref :: "jsval \<Rightarrow> nat" where
  "node_ref v = (case v of JNode r s \<Rightarrow> r | _ \<Rightarrow> 0)"

definition CB2_updateTarget :: "jsval \<Rightarrow> LifecycleFlags \<Rightarrow> cb2_world \<Rightarrow> cb2_world" where
  "CB2_updateTarget v flags w =
     (let oldValue = cb_value (cw_binding w);
          w1 = w\<lparr>cw_binding := (cw_binding w)\<lparr>cb_task := None\<rparr>\<rparr>;
          w2 = (if instanceof_Node oldValue then removeChild (node_ref oldValue) w1 else w1);
          w3 = (if instanceof_Node v
                then insertBefore (node_ref v) (set_textContent '''' w2)
                else set_textContent (to_str v) w2)
      in w3\<lparr>cw_binding := (cw_binding w3)\<lparr>cb_value := v\<rparr>\<rparr>)"

definition CB2_handleChange ::
  "runtime_consts \<Rightarrow> jsval \<Rightarrow> jsval \<Rightarrow> LifecycleFlags \<Rightarrow> cb2_world \<Rightarrow> cb2_world" where
  "CB2_handleChange K newValue oldValue flags w =
     (if \<not> cb_isBound (cw_binding w) then w
      else (let (newValue', b1, evs) = handleChange_newValue K (cw_store w) newValue flags (cw_binding w);
                w1 = w\<lparr>cw_binding := b1, cw_trace := cw_trace w @ evs\<rparr>
            in if strict_eq newValue' (cb_value b1) then w1
               else (let shouldQueueFlush = ((flags AND LifecycleFlags_fromBind K) = 0);
                         w2 = w1\<lparr>cw_domWriteQueue := cancel_opt (cb_task b1) (cw_domWriteQueue w1)\<rparr>
                     in if shouldQueueFlush
                        then (let (h, q) = queueTask (newValue', flags) queueTaskOptions (cw_domWriteQueue w2)
                              in w2\<lparr>cw_binding := (cw_binding w2)\<lparr>cb_task := Some h\<rparr>,
                                    cw_domWriteQueue := q\<rparr>)
                        else CB2_updateTarget newValue' flags w2)))"

definition CB2_handleCollectionChange :: "runtime_consts \<Rightarrow> cb2_world \<Rightarrow> cb2_world" where
  "CB2_handleCollectionChange K w =
     CB2_updateTarget (JStr (to_str (cb_value (cw_binding w)))) (LifecycleFlags_none K) w"

definition CB2_unbind :: "LifecycleFlags \<Rightarrow> cb2_world \<Rightarrow> cb2_world" where
  "CB2_unbind flags w =
     (if \<not> cb_isBound (cw_binding w) then w
      else (let (b', evs) = unbind_body (cw_binding w)
            in w\<lparr>cw_binding := b', cw_trace := cw_trace w @ evs\<rparr>))"

definition CB2_bind ::
  "runtime_consts \<Rightarrow> LifecycleFlags \<Rightarrow> Scope \<Rightarrow> Scope option \<Rightarrow> cb2_world \<Rightarrow> cb2_world" where
  "CB2_bind K flags scope hostScope w =
     (if cb_isBound (cw_binding w) \<and> cb_scope (cw_binding w) = Some scope then w
      else (let w1 = (if cb_isBound (cw_binding w) then CB2_unbind flags w else w);
                (b', evs) = bind_body K (cw_store w1) flags scope hostScope (cw_binding w1);
                w2 = w1\<lparr>cw_binding := b', cw_trace := cw_trace w1 @ evs\<rparr>
            in CB2_updateTarget (cb_value b') flags w2))"

text \<open>
  The closure queued by \<^verbatim>\<open>handleChange\<close>: \<^verbatim>\<open>() => { this.updateTarget(newValue, flags); }\<close>,
  and a flush of the \<^verbatim>\<open>domWriteQueue\<close>.
\<close>

definition CB2_task_work :: "jsval \<times> LifecycleFlags \<Rightarrow> cb2_world \<Rightarrow> cb2_world" where
  "CB2_task_work c w = CB2_updateTarget (fst c) (snd c) w"

definition CB2_runTask :: "nat \<Rightarrow> cb2_world \<Rightarrow> cb2_world" where
  "CB2_runTask h w =
     (let q = cw_domWriteQueue w
      in if h < length q \<and> task_status (q ! h) = Pending
         then CB2_task_work (task_work (q ! h))
                (w\<lparr>cw_domWriteQueue := q[h := (q ! h)\<lparr>task_status := Run\<rparr>]\<rparr>)
         else w)"

definition CB2_flush :: "cb2_world \<Rightarrow> cb2_world" where
  "CB2_flush w = fold CB2_runTask [0..<length (cw_domWriteQueue w)] w"

section \<open>BindingTargetSubscriber (packages/runtime-html/src/binding/binding-utils.ts)\<close>

text \<open>
  The two-way binding \<^verbatim>\<open>b\<close> behind the subscriber (\<^verbatim>\<open>ITwoWayBindingImpl\<close>): its source
  expression, its scopes, and its \<^verbatim>\<open>updateSource(value, flags)\<close>, an interface method
  whose effect on the store is a field of the record.
\<close>

record TwoWayBinding =
  tw_sourceExpression :: expression
  tw_scope :: "Scope option"
  tw_hostScope :: "Scope option"
  tw_updateSource :: "jsval \<Rightarrow> LifecycleFlags \<Rightarrow> store \<Rightarrow> store"

record tw_world =
  tw_store :: store
  tw_trace :: "event list"

definition updateSource :: "TwoWayBinding \<Rightarrow> jsval \<Rightarrow> LifecycleFlags \<Rightarrow> tw_world \<Rightarrow> tw_world" where
  "updateSource b v flags w =
     w\<lparr>tw_store := tw_updateSource b v flags (tw_store w),
       tw_trace := tw_trace w @ [UpdateSource v flags]\<rparr>"

definition BTS_handleChange ::
  "TwoWayBinding \<Rightarrow> jsval \<Rightarrow> jsval \<Rightarrow> LifecycleFlags \<Rightarrow> tw_world \<Rightarrow> tw_world" where
  "BTS_handleChange b v old flags w =
     (let (current, reads) = evaluate (tw_sourceExpression b) flags (tw_store w) (tw_scope b) (tw_hostScope b);
          w1 = w\<lparr>tw_trace := tw_trace w @ [Evaluate False]\<rparr>
      in if \<not> strict_eq v current then updateSource b v flags w1 else w1)"

section \<open>BatchQueue (packages/runtime/src/lifecycle.ts)\<close>

text \<open>
  A batchable (\<^verbatim>\<open>IBatchable\<close>) is a reference; what its \<^verbatim>\<open>flushBatch(flags)\<close> does is a
  parameter \<open>fb\<close> of the operations that flush. A flush callback may do anything to the
  queue and to the rest of the world (\<open>bq_ext\<close>), so it is a function on the whole world.
\<close>

record 'u bq_world =
  bq_queue :: "nat list"
  bq_depth :: int
  bq_ext :: 'u

type_synonym 'u flushBatch = "nat \<Rightarrow> LifecycleFlags \<Rightarrow> 'u bq_world \<Rightarrow> 'u bq_world"

definition BatchQueue_begin :: "'u bq_world \<Rightarrow> 'u bq_world" where
  "BatchQueue_begin w = w\<lparr>bq_depth := bq_depth w + 1\<rparr>"

definition BatchQueue_add :: "nat \<Rightarrow> 'u bq_world \<Rightarrow> 'u bq_world" where
  "BatchQueue_add requestor w = w\<lparr>bq_queue := bq_queue w @ [requestor]\<rparr>"

text \<open>\<^verbatim>\<open>indexOf\<close> and \<^verbatim>\<open>splice(index, 1)\<close>: the first occurrence goes.\<close>

definition BatchQueue_remove :: "nat \<Rightarrow> 'u bq_world \<Rightarrow> 'u bq_world" where
  "BatchQueue_remove requestor w = w\<lparr>bq_queue := remove1 requestor (bq_queue w)\<rparr>"

text \<open>\<^verbatim>\<open>for (let i = 0; i < length; ++i) { batch[i].flushBatch(flags); }\<close>\<close>

function flush_pass ::
  "'u flushBatch \<Rightarrow> LifecycleFlags \<Rightarrow> nat list \<Rightarrow> nat \<Rightarrow> 'u bq_world \<Rightarrow> 'u bq_world" where
  "flush_pass fb flags batch i w =
     (if i < length batch then flush_pass fb flags batch (i + 1) (fb (batch ! i) flags w) else w)"
  by pat_completeness auto
termination
  by (relation "measure (\<lambda>(fb, flags, batch, i, w). length batch - i)") auto

declare flush_pass.simps [simp del]

text \<open>
  \<^verbatim>\<open>while (this.queue.length > 0) { const batch = this.queue.slice(); this.queue = []; ... }\<close>
  The loop runs for as long as flush callbacks keep adding to the queue; \<open>None\<close> is the
  run that never ends.
\<close>

partial_function (option) BatchQueue_process ::
  "'u flushBatch \<Rightarrow> LifecycleFlags \<Rightarrow> 'u bq_world \<Rightarrow> 'u bq_world option" where
  "BatchQueue_process fb flags w =
     (if length (bq_queue w) > 0
      then (let batch = bq_queue w;
                w1 = w\<lparr>bq_queue := []\<rparr>
            in BatchQueue_process fb flags (flush_pass fb flags batch 0 w1))
      else Some w)"

definition BatchQueue_end ::
  "runtime_consts \<Rightarrow> 'u flushBatch \<Rightarrow> LifecycleFlags option \<Rightarrow> 'u bq_world \<Rightarrow> 'u bq_world option" where
  "BatchQueue_end K fb flags_arg w =
     (let flags = (case flags_arg of None \<Rightarrow> LifecycleFlags_none K | Some f \<Rightarrow> f);
          w1 = w\<lparr>bq_depth := bq_depth w - 1\<rparr>
      in if bq_depth w1 = 0 then BatchQueue_process fb flags w1 else Some w1)"

definition BatchQueue_inline ::
  "runtime_consts \<Rightarrow> 'u flushBatch \<Rightarrow> ('u bq_world \<Rightarrow> 'u bq_world) \<Rightarrow> LifecycleFlags option \<Rightarrow>
     'u bq_world \<Rightarrow> 'u bq_world option" where
  "BatchQueue_inline K fb fn flags_arg w = BatchQueue_end K fb flags_arg (fn (BatchQueue_begin w))"

section \<open>The rendered output, as the specification words it\<close>

text \<open>
  \<open>S0 + v0 + S1 + v1 + ... + Sk\<close> for static parts \<open>S0..Sk\<close> and dynamic values
  \<open>v0..v(k-1)\<close>, where \<open>+\<close> is the concatenation of strings and a value stands
  for its string.
\<close>

fun rendered_output :: "string list \<Rightarrow> jsval list \<Rightarrow> string" where
  "rendered_output (s # ss) (v # vs) = s @ to_str v @ rendered_output ss vs"
| "rendered_output (s # ss) [] = s"
| "rendered_output [] vs = []"

section \<open>A concrete world: the interpolation \<^verbatim>\<open>${a} and ${b}\<close>\<close>

text \<open>
  A sample conversion of strings to numbers, for the concrete worlds only: it reads the
  decimal integer literals (white space is trimmed, the empty string is 0, an optionally
  signed run of decimal digits is that integer) and nothing else. It is used at such
  literals only; no theorem about all worlds depends on it.
\<close>

definition is_white_space :: "char \<Rightarrow> bool" where
  "is_white_space c = (c \<in> set [CHR 0x20, CHR 0x09, CHR 0x0A, CHR 0x0B, CHR 0x0C, CHR 0x0D])"

definition trim :: "string \<Rightarrow> string" where
  "trim s = rev (dropWhile is_white_space (rev (dropWhile is_white_space s)))"

definition is_digit :: "char \<Rightarrow> bool" where
  "is_digit c = (c \<in> set ''0123456789'')"

definition digit_val :: "char \<Rightarrow> nat" where
  "digit_val c = (of_char c :: nat) - 48"

definition digits_to_nat :: "string \<Rightarrow> nat" where
  "digits_to_nat s = foldl (\<lambda>a c. 10 * a + digit_val c) 0 s"

definition unsigned_digits :: "string \<Rightarrow> nat option" where
  "unsigned_digits s = (if s \<noteq> [] \<and> list_all is_digit s then Some (digits_to_nat s) else None)"

definition read_decimal_integer :: "string \<Rightarrow> int option" where
  "read_decimal_integer s =
     (case trim s of
        [] \<Rightarrow> Some 0
      | c # r \<Rightarrow>
          if c = CHR ''-'' then map_option (\<lambda>n. - int n) (unsigned_digits r)
          else if c = CHR ''+'' then map_option int (unsigned_digits r)
          else map_option int (unsigned_digits (c # r)))"

text \<open>Sample values of the flags: one bit each, and \<^verbatim>\<open>none\<close> is zero.\<close>

definition example_consts :: runtime_consts where
  "example_consts =
     \<lparr>LifecycleFlags_none = 0, LifecycleFlags_fromBind = 32, AccessorType_Layout = 64,
      BindingMode_oneTime = 1, BindingMode_toView = 2,
      StringToNumber = read_decimal_integer\<rparr>"

text \<open>The expression that reads the property \<open>name\<close> of the scope.\<close>

definition access_scope :: "string \<Rightarrow> expression" where
  "access_scope name =
     \<lparr>kind = AccessScope, hasBind = False, hasUnbind = False,
      evaluate = (\<lambda>flags st scope hostScope.
        (case scope of
           None \<Rightarrow> (JUndefined, [])
         | Some s \<Rightarrow> (st s name, [Property s name])))\<rparr>"

definition example_part :: "string \<Rightarrow> ContentBinding" where
  "example_part name =
     \<lparr>cb_sourceExpression = access_scope name, cb_mode = 2, cb_value = JStr '''',
      cb_scope = None, cb_hostScope = None, cb_task = None, cb_isBound = False,
      cb_obs = \<lparr>version = 0, slots = []\<rparr>\<rparr>"

definition example_store :: "jsval \<Rightarrow> jsval \<Rightarrow> store" where
  "example_store a b = (\<lambda>s name. if name = ''a'' then a else if name = ''b'' then b else JUndefined)"

definition example_ib :: InterpolationBinding where
  "example_ib =
     \<lparr>ib_isBound = False, ib_scope = None, ib_hostScope = None,
      partBindings = [example_part ''a'', example_part ''b''],
      interpolation_parts = ['''', '' and '', ''''],
      ib_mode = 2, targetObserver_type = 64, ib_task = None\<rparr>"

definition example_world :: ib_world where
  "example_world =
     \<lparr>iw_store = example_store (JStr ''X'') (JStr ''Y''), iw_binding = example_ib,
      iw_taskQueue = [], iw_target = JUndefined, iw_trace = []\<rparr>"

text \<open>The world after \<^verbatim>\<open>$bind\<close> from the bind phase, against scope 7.\<close>

definition example_bound :: ib_world where
  "example_bound = IB_bind example_consts 32 7 None example_world"

section \<open>Well-formed task handles\<close>

text \<open>A task handle held by a binding was returned by \<^verbatim>\<open>queueTask\<close>: it is a position of the queue.\<close>

definition handle_ok :: "nat option \<Rightarrow> 'c TaskQueue \<Rightarrow> bool" where
  "handle_ok t q = (case t of None \<Rightarrow> True | Some h \<Rightarrow> h < length q)"

text \<open>The same bound binding, constructed with the mode \<^verbatim>\<open>oneTime\<close>.\<close>

definition example_one_time :: ib_world where
  "example_one_time =
     example_bound\<lparr>iw_binding := (iw_binding example_bound)\<lparr>ib_mode := BindingMode_oneTime example_consts\<rparr>\<rparr>"

definition set_ib_mode :: "BindingMode \<Rightarrow> ib_world \<Rightarrow> ib_world" where
  "set_ib_mode m w = w\<lparr>iw_binding := (iw_binding w)\<lparr>ib_mode := m\<rparr>\<rparr>"

text \<open>The calls that change what the target shows.\<close>

definition is_target_write :: "event \<Rightarrow> bool" where
  "is_target_write e =
     (case e of
        SetValue v flags \<Rightarrow> True
      | SetTextContent s \<Rightarrow> True
      | InsertBefore r \<Rightarrow> True
      | RemoveChild r \<Rightarrow> True
      | _ \<Rightarrow> False)"

section \<open>A concrete world: the text \<^verbatim>\<open>${a}\<close>, and an interpolation over a numeric string\<close>

definition example_text :: cb2_world where
  "example_text =
     \<lparr>cw_store = example_store (JStr ''1'') JUndefined, cw_binding = example_part ''a'',
      cw_domWriteQueue = [], cw_textContent = [], cw_target_has_parent = True,
      cw_before_target = [], cw_trace = []\<rparr>"

definition example_text_bound :: cb2_world where
  "example_text_bound = CB2_bind example_consts 32 7 None example_text"

definition example_numeric :: ib_world where
  "example_numeric =
     IB_bind example_consts 32 7 None
       (example_world\<lparr>iw_store := example_store (JStr ''1'') (JStr ''Y'')\<rparr>)"



section \<open>Concrete worlds with another expression kind and another mode\<close>





section \<open>A concrete two-way binding on the property \<^verbatim>\<open>a\<close> of scope 7\<close>

definition example_two_way :: TwoWayBinding where
  "example_two_way =
     \<lparr>tw_sourceExpression = access_scope ''a'', tw_scope = Some 7, tw_hostScope = None,
      tw_updateSource = (\<lambda>v flags st. st(7 := (st 7)(''a'' := v)))\<rparr>"

section \<open>One pass of the drain loop, and a concrete flush callback\<close>

text \<open>The body of the \<^verbatim>\<open>while\<close> loop of \<^verbatim>\<open>process\<close>: snapshot, clear, flush the snapshot.\<close>

definition drain_pass :: "'u flushBatch \<Rightarrow> LifecycleFlags \<Rightarrow> 'u bq_world \<Rightarrow> 'u bq_world" where
  "drain_pass fb flags w = flush_pass fb flags (bq_queue w) 0 (w\<lparr>bq_queue := []\<rparr>)"

text \<open>
  A flush callback that logs the batchable it was called for; the batchable 1 adds the
  batchable 2 to the queue when it is flushed.
\<close>

definition example_flushBatch :: "nat list flushBatch" where
  "example_flushBatch r flags w =
     w\<lparr>bq_ext := bq_ext w @ [r],
       bq_queue := bq_queue w @ (if r = 1 then [2] else [])\<rparr>"

definition example_queue :: "nat list bq_world" where
  "example_queue = \<lparr>bq_queue = [1, 3], bq_depth = 1, bq_ext = []\<rparr>"

section \<open>The task discipline of a binding, and concrete worlds with a pending write\<close>

text \<open>
  The only task of the queue that may be pending is the one the binding holds in its
  \<^verbatim>\<open>task\<close> field, and that field holds a handle of the queue.
\<close>

definition ib_inv :: "ib_world \<Rightarrow> bool" where
  "ib_inv w =
     (handle_ok (ib_task (iw_binding w)) (iw_taskQueue w)
      \<and> list_all (\<lambda>h. ib_task (iw_binding w) = Some h) (pending_tasks (iw_taskQueue w)))"

text \<open>
  The bound text \<^verbatim>\<open>${a}\<close>, notified of the value \<open>"Z"\<close> outside the bind phase: a write
  is pending.
\<close>

definition example_text_pending :: cb2_world where
  "example_text_pending = CB2_handleChange example_consts (JStr ''Z'') (JStr ''1'') 0 example_text_bound"

text \<open>
  Then, before any flush: \<^verbatim>\<open>$unbind\<close>, \<^verbatim>\<open>$bind\<close> to scope 8 from the bind phase, and a
  notification of the value \<open>"W"\<close>.
\<close>

definition example_text_rebound :: cb2_world where
  "example_text_rebound =
     CB2_handleChange example_consts (JStr ''W'') (JStr ''1'') 0
       (CB2_bind example_consts 32 8 None (CB2_unbind 0 example_text_pending))"

text \<open>The bound interpolation, notified twice in one turn, of \<open>"Z"\<close> and then of \<open>"W"\<close>.\<close>

definition example_two_changes :: ib_world where
  "example_two_changes =
     CB_handleChange example_consts 0 (JStr ''W'') (JStr ''Z'') 0
       (CB_handleChange example_consts 0 (JStr ''Z'') (JStr ''X'') 0 example_bound)"

text \<open>A flush callback that puts the batchable it was called for back in the queue.\<close>

definition example_resubmit :: "unit flushBatch" where
  "example_resubmit r flags w = w\<lparr>bq_queue := bq_queue w @ [r]\<rparr>"

section \<open>Evaluating the model\<close>

lemmas js_defs =
  to_primitive_def is_object_def is_string_def js_add_def instanceof_Array_def instanceof_Node_def
  int_to_str_def digit_char_def nonstring_to_number_def
  loose_eq_def loose_eq_prim_def bool_to_num_def read_decimal_integer_def trim_def is_white_space_def
  unsigned_digits_def is_digit_def digits_to_nat_def digit_val_def

lemmas queue_defs = queueTask_def cancel_def cancel_opt_def queueTaskOptions_def handle_ok_def

lemmas obs_defs = obs_count_def obs_observe_def obs_clear_def

lemmas IB_defs =
  part_at_def IB_result_def setValue_def IB_task_work_def IB_shouldQueueFlush_def IB_updateTarget_def
  IB_runTask_def IB_flush_def observeCollection_def shouldConnect_def canOptimize_def
  handleChange_newValue_def bind_body_def unbind_body_def set_part_def add_trace_def
  CB_handleChange_def CB_handleCollectionChange_def CB_unbind_def CB_bind_def IB_unbind_def IB_bind_def

lemmas example_defs =
  example_consts_def access_scope_def example_part_def example_store_def example_ib_def
  example_world_def

lemma upt_0_2: "[0..<2] = [0, 1]"
  by (simp add: upt_rec)

lemma example_bound_eval:
  "example_bound =
     \<lparr>iw_store = example_store (JStr ''X'') (JStr ''Y''),
      iw_binding = \<lparr>ib_isBound = True, ib_scope = Some 7, ib_hostScope = None,
        partBindings =
          [\<lparr>cb_sourceExpression = access_scope ''a'', cb_mode = 2, cb_value = JStr ''X'',
            cb_scope = Some 7, cb_hostScope = None, cb_task = None, cb_isBound = True,
            cb_obs = \<lparr>version = 0, slots = [(Property 7 ''a'', 0)]\<rparr>\<rparr>,
           \<lparr>cb_sourceExpression = access_scope ''b'', cb_mode = 2, cb_value = JStr ''Y'',
            cb_scope = Some 7, cb_hostScope = None, cb_task = None, cb_isBound = True,
            cb_obs = \<lparr>version = 0, slots = [(Property 7 ''b'', 0)]\<rparr>\<rparr>],
        interpolation_parts = ['''', '' and '', ''''],
        ib_mode = 2, targetObserver_type = 64, ib_task = None\<rparr>,
      iw_taskQueue = [], iw_target = JStr ''X and Y'',
      iw_trace = [Evaluate True, Evaluate True, SetValue (JStr ''X and Y'') 32]\<rparr>"
  by (simp add: example_bound_def IB_defs example_defs obs_defs js_defs queue_defs Let_def upt_0_2
      concat_loop.simps)

section \<open>The string that updateTarget writes\<close>

lemma to_str_to_primitive [simp]: "to_str (to_primitive v) = to_str v"
  by (cases v) (simp_all add: to_primitive_def is_object_def)

lemma js_add_JStr_right: "js_add v (JStr s) = JStr (to_str v @ s)"
  by (simp add: js_add_def Let_def is_string_def to_primitive_def is_object_def)

lemma js_add_JStr_left: "js_add (JStr s) v = JStr (s @ to_str v)"
  by (simp add: js_add_def Let_def is_string_def to_primitive_def is_object_def)

lemma concat_loop_rendered:
  assumes "length staticParts = length pbs + 1" "i \<le> length pbs"
  shows "concat_loop pbs staticParts i (JStr (r @ staticParts ! i)) =
         JStr (r @ rendered_output (drop i staticParts) (drop i (map cb_value pbs)))"
  using assms
proof (induction "length pbs - i" arbitrary: i r)
  case 0
  then have i: "i = length pbs" by simp
  then have "drop i staticParts = [staticParts ! i]"
    using 0 by (metis Cons_nth_drop_Suc Suc_eq_plus1 drop_all le_refl lessI)
  then show ?case
    using i by (simp add: concat_loop.simps)
next
  case (Suc n)
  then have lt: "i < length pbs" by simp
  have d1: "drop i staticParts = staticParts ! i # drop (Suc i) staticParts"
    using Suc.prems lt by (simp add: Cons_nth_drop_Suc)
  have d2: "drop i (map cb_value pbs) = cb_value (pbs ! i) # drop (Suc i) (map cb_value pbs)"
    using lt by (metis Cons_nth_drop_Suc length_map nth_map)
  have n: "n = length pbs - (i + 1)" using Suc.hyps by simp
  have le: "i + 1 \<le> length pbs" using lt by simp
  have step: "concat_loop pbs staticParts i (JStr (r @ staticParts ! i)) =
      concat_loop pbs staticParts (i + 1)
        (JStr ((r @ staticParts ! i @ to_str (cb_value (pbs ! i))) @ staticParts ! (i + 1)))"
    using lt Suc.prems
    by (subst concat_loop.simps) (simp add: part_at_def js_add_JStr_right js_add_JStr_left)
  show ?case
    unfolding step
    using Suc.hyps(1) [OF n Suc.prems(1) le, of "r @ staticParts ! i @ to_str (cb_value (pbs ! i))"]
    by (simp add: d1 d2)
qed

lemma IB_result_rendered:
  assumes "length (interpolation_parts b) = length (partBindings b) + 1"
  shows "IB_result b = JStr (rendered_output (interpolation_parts b) (map cb_value (partBindings b)))"
proof (cases "length (partBindings b) = 1")
  case True
  then obtain p where p: "partBindings b = [p]"
    by (cases "partBindings b") auto
  with assms obtain s0 s1 where s: "interpolation_parts b = [s0, s1]"
    by (cases "interpolation_parts b"; cases "tl (interpolation_parts b)") auto
  show ?thesis
    by (simp add: IB_result_def p s part_at_def js_add_JStr_right js_add_JStr_left)
next
  case False
  have "interpolation_parts b \<noteq> []" using assms by auto
  then have "part_at (interpolation_parts b) 0 = JStr ([] @ interpolation_parts b ! 0)"
    by (simp add: part_at_def)
  then show ?thesis
    using False concat_loop_rendered [OF assms, of 0 "[]"]
    by (simp add: IB_result_def Let_def)
qed


lemma length_cancel [simp]: "length (cancel h q) = length q"
  by (simp add: cancel_def)

lemma length_cancel_opt [simp]: "length (cancel_opt t q) = length q"
  by (simp add: cancel_opt_def split: option.splits)

lemma cancel_nth_other: "k \<noteq> h \<Longrightarrow> cancel h q ! k = q ! k"
  by (simp add: cancel_def)

lemma task_work_cancel [simp]: "k < length q \<Longrightarrow> task_work (cancel h q ! k) = task_work (q ! k)"
  by (cases "k = h") (simp_all add: cancel_def)

lemma task_work_cancel_opt [simp]:
  "k < length q \<Longrightarrow> task_work (cancel_opt t q ! k) = task_work (q ! k)"
  by (simp add: cancel_opt_def split: option.splits)

lemma cancel_opt_nth_other:
  "t \<noteq> Some k \<Longrightarrow> cancel_opt t q ! k = q ! k"
  by (cases t) (simp_all add: cancel_opt_def cancel_nth_other)

lemma length_queue_IB_runTask [simp]:
  "length (iw_taskQueue (IB_runTask h w)) = length (iw_taskQueue w)"
  by (simp add: IB_runTask_def IB_task_work_def setValue_def Let_def)

lemma queue_nth_IB_runTask:
  "k \<noteq> h \<Longrightarrow> iw_taskQueue (IB_runTask h w) ! k = iw_taskQueue w ! k"
  by (simp add: IB_runTask_def IB_task_work_def setValue_def Let_def)

lemma length_queue_fold_IB_runTask [simp]:
  "length (iw_taskQueue (fold IB_runTask hs w)) = length (iw_taskQueue w)"
  by (induction hs arbitrary: w) simp_all

lemma queue_nth_fold_IB_runTask:
  "k \<notin> set hs \<Longrightarrow> iw_taskQueue (fold IB_runTask hs w) ! k = iw_taskQueue w ! k"
  by (induction hs arbitrary: w) (simp_all add: queue_nth_IB_runTask)

lemma IB_runTask_pending:
  "h < length (iw_taskQueue w) \<Longrightarrow> task_status (iw_taskQueue w ! h) = Pending \<Longrightarrow>
   iw_target (IB_runTask h w) = fst (task_work (iw_taskQueue w ! h)) \<and>
   iw_trace (IB_runTask h w) =
     iw_trace w @ [SetValue (fst (task_work (iw_taskQueue w ! h))) (snd (task_work (iw_taskQueue w ! h)))]"
  by (simp add: IB_runTask_def IB_task_work_def setValue_def Let_def)

lemma IB_flush_snoc:
  "IB_flush (w\<lparr>iw_taskQueue := q @ [t]\<rparr>) =
   IB_runTask (length q) (fold IB_runTask [0..<length q] (w\<lparr>iw_taskQueue := q @ [t]\<rparr>))"
  by (simp add: IB_flush_def)

lemma IB_flush_last_pending:
  assumes "iw_taskQueue w \<noteq> []" "task_status (last (iw_taskQueue w)) = Pending"
  shows "iw_target (IB_flush w) = fst (task_work (last (iw_taskQueue w)))"
proof -
  define n where "n = length (iw_taskQueue w) - 1"
  have len: "length (iw_taskQueue w) = Suc n"
    using assms(1) by (simp add: n_def)
  have last: "last (iw_taskQueue w) = iw_taskQueue w ! n"
    using assms(1) by (simp add: n_def last_conv_nth)
  let ?w = "fold IB_runTask [0..<n] w"
  have "iw_taskQueue ?w ! n = iw_taskQueue w ! n"
    by (rule queue_nth_fold_IB_runTask) simp
  moreover have "n < length (iw_taskQueue ?w)"
    by (simp add: len)
  ultimately have "iw_target (IB_runTask n ?w) = fst (task_work (iw_taskQueue w ! n))"
    using IB_runTask_pending [of n ?w] assms(2) last by simp
  then show ?thesis
    by (simp add: IB_flush_def len last)
qed


lemma IB_updateTarget_immediate:
  "\<not> IB_shouldQueueFlush K flags (iw_binding w) \<Longrightarrow>
   IB_updateTarget K v flags w =
     w\<lparr>iw_target := IB_result (iw_binding w),
       iw_trace := iw_trace w @ [SetValue (IB_result (iw_binding w)) flags]\<rparr>"
  by (simp add: IB_updateTarget_def setValue_def Let_def)

lemma IB_updateTarget_deferred:
  "IB_shouldQueueFlush K flags (iw_binding w) \<Longrightarrow>
   IB_updateTarget K v flags w =
     w\<lparr>iw_binding := (iw_binding w)\<lparr>ib_task := Some (length (iw_taskQueue w))\<rparr>,
       iw_taskQueue := cancel_opt (ib_task (iw_binding w))
         (iw_taskQueue w @ [\<lparr>task_status = Pending, task_work = (IB_result (iw_binding w), flags),
                             task_options = queueTaskOptions\<rparr>])\<rparr>"
  by (simp add: IB_updateTarget_def queueTask_def Let_def)

lemma last_cancel_opt_snoc:
  "handle_ok t q \<Longrightarrow> last (cancel_opt t (q @ [x])) = x"
  by (cases t) (auto simp: handle_ok_def cancel_opt_def cancel_def last_list_update)

text \<open>
  C1: with static parts \<open>S0..Sk\<close> and one part binding per dynamic value, the result that
  \<^verbatim>\<open>updateTarget\<close> computes is the string \<open>S0 + v0 + S1 + ... + Sk\<close>; this is the
  value it hands to the target accessor when it writes at once, and the value captured by
  the task it queues when it defers, which the flush of the queue then writes; with exactly
  one part binding it is \<open>staticParts[0] + value + staticParts[1]\<close>.
\<close>

theorem C1_updateTarget_writes_concatenation:
  assumes "length (interpolation_parts (iw_binding w)) = length (partBindings (iw_binding w)) + 1"
  shows "(let out = JStr (rendered_output (interpolation_parts (iw_binding w))
                       (map cb_value (partBindings (iw_binding w)))) in
    IB_result (iw_binding w) = out
  \<and> (\<not> IB_shouldQueueFlush K flags (iw_binding w) \<longrightarrow>
       IB_updateTarget K v flags w = w\<lparr>iw_target := out, iw_trace := iw_trace w @ [SetValue out flags]\<rparr>)
  \<and> (IB_shouldQueueFlush K flags (iw_binding w) \<longrightarrow>
       ib_task (iw_binding (IB_updateTarget K v flags w)) = Some (length (iw_taskQueue w))
     \<and> task_work (iw_taskQueue (IB_updateTarget K v flags w) ! length (iw_taskQueue w)) = (out, flags)
     \<and> (handle_ok (ib_task (iw_binding w)) (iw_taskQueue w) \<longrightarrow>
          iw_target (IB_flush (IB_updateTarget K v flags w)) = out))
  \<and> (\<forall>p. partBindings (iw_binding w) = [p] \<longrightarrow>
       out = JStr (interpolation_parts (iw_binding w) ! 0 @ to_str (cb_value p)
                   @ interpolation_parts (iw_binding w) ! 1)))"
proof -
  let ?out = "JStr (rendered_output (interpolation_parts (iw_binding w))
                       (map cb_value (partBindings (iw_binding w))))"
  have r: "IB_result (iw_binding w) = ?out"
    by (rule IB_result_rendered [OF assms])
  have imm: "\<not> IB_shouldQueueFlush K flags (iw_binding w) \<longrightarrow>
       IB_updateTarget K v flags w = w\<lparr>iw_target := ?out, iw_trace := iw_trace w @ [SetValue ?out flags]\<rparr>"
    by (simp add: IB_updateTarget_immediate r)
  have def: "IB_shouldQueueFlush K flags (iw_binding w) \<longrightarrow>
       ib_task (iw_binding (IB_updateTarget K v flags w)) = Some (length (iw_taskQueue w))
     \<and> task_work (iw_taskQueue (IB_updateTarget K v flags w) ! length (iw_taskQueue w)) = (?out, flags)
     \<and> (handle_ok (ib_task (iw_binding w)) (iw_taskQueue w) \<longrightarrow>
          iw_target (IB_flush (IB_updateTarget K v flags w)) = ?out)"
  proof (intro impI conjI)
    assume q: "IB_shouldQueueFlush K flags (iw_binding w)"
    show "ib_task (iw_binding (IB_updateTarget K v flags w)) = Some (length (iw_taskQueue w))"
      by (simp add: IB_updateTarget_deferred [OF q])
    show "task_work (iw_taskQueue (IB_updateTarget K v flags w) ! length (iw_taskQueue w)) = (?out, flags)"
      by (simp add: IB_updateTarget_deferred [OF q] r)
    assume ok: "handle_ok (ib_task (iw_binding w)) (iw_taskQueue w)"
    let ?w = "IB_updateTarget K v flags w"
    have l: "last (iw_taskQueue ?w) = \<lparr>task_status = Pending, task_work = (?out, flags),
                             task_options = queueTaskOptions\<rparr>"
      by (simp add: IB_updateTarget_deferred [OF q] last_cancel_opt_snoc [OF ok] r)
    have ne: "iw_taskQueue ?w \<noteq> []"
      by (simp add: IB_updateTarget_deferred [OF q] flip: length_0_conv)
    show "iw_target (IB_flush ?w) = ?out"
      using IB_flush_last_pending [OF ne] l by simp
  qed
  have one: "\<forall>p. partBindings (iw_binding w) = [p] \<longrightarrow>
       ?out = JStr (interpolation_parts (iw_binding w) ! 0 @ to_str (cb_value p)
                   @ interpolation_parts (iw_binding w) ! 1)"
  proof (intro allI impI)
    fix p assume p: "partBindings (iw_binding w) = [p]"
    with assms obtain s0 s1 where s: "interpolation_parts (iw_binding w) = [s0, s1]"
      by (cases "interpolation_parts (iw_binding w)"; cases "tl (interpolation_parts (iw_binding w))") auto
    show "?out = JStr (interpolation_parts (iw_binding w) ! 0 @ to_str (cb_value p)
                   @ interpolation_parts (iw_binding w) ! 1)"
      by (simp add: p s)
  qed
  from r imm def one show ?thesis
    unfolding Let_def by blast
qed



theorem C1_witness:
  "length (interpolation_parts (iw_binding example_bound))
     = length (partBindings (iw_binding example_bound)) + 1
   \<and> IB_shouldQueueFlush example_consts 0 (iw_binding example_bound)
   \<and> handle_ok (ib_task (iw_binding example_bound)) (iw_taskQueue example_bound)
   \<and> IB_result (iw_binding example_bound) = JStr ''X and Y''
   \<and> task_work (iw_taskQueue (IB_updateTarget example_consts JUndefined 0 example_bound) ! 0)
       = (JStr ''X and Y'', 0)
   \<and> iw_target (IB_flush (IB_updateTarget example_consts JUndefined 0 example_bound)) = JStr ''X and Y''"
proof -
  have len: "length (interpolation_parts (iw_binding example_bound))
     = length (partBindings (iw_binding example_bound)) + 1"
    by (simp add: example_bound_eval)
  have q: "IB_shouldQueueFlush example_consts 0 (iw_binding example_bound)"
    by (simp add: example_bound_eval IB_shouldQueueFlush_def example_consts_def)
  have ok: "handle_ok (ib_task (iw_binding example_bound)) (iw_taskQueue example_bound)"
    by (simp add: example_bound_eval handle_ok_def)
  have out: "rendered_output (interpolation_parts (iw_binding example_bound))
               (map cb_value (partBindings (iw_binding example_bound))) = ''X and Y''"
    by (simp add: example_bound_eval)
  have l0: "length (iw_taskQueue example_bound) = 0"
    by (simp add: example_bound_eval)
  from C1_updateTarget_writes_concatenation [OF len, of example_consts 0 JUndefined] q ok len
  show ?thesis
    by (simp add: Let_def out l0)
qed

section \<open>Properties of the controller state flags\<close>

lemmas State_defs =
  State_none_def State_activating_def State_beforeBindCalled_def
  State_activateChildrenCalled_def State_activated_def State_deactivating_def
  State_beforeDetachCalled_def State_deactivateChildrenCalled_def State_deactivated_def
  State_released_def State_disposed_def

text \<open>A state has all the bits of a union of flags exactly when it has the bits of each.\<close>

lemma has_flag_OR: "has_flag s (a OR b) \<longleftrightarrow> has_flag s a \<and> has_flag s b"
proof
  assume h: "has_flag s (a OR b)"
  have "s AND a = (s AND (a OR b)) AND a"
    by (simp add: and.assoc)
  also have "\<dots> = a"
    using h by (simp add: has_flag_def)
  finally have 1: "s AND a = a" .
  have "s AND b = (s AND (a OR b)) AND b"
    by (simp add: and.assoc)
  also have "\<dots> = b"
    using h by (simp add: has_flag_def)
  finally have 2: "s AND b = b" .
  from 1 2 show "has_flag s a \<and> has_flag s b"
    by (simp add: has_flag_def)
next
  assume "has_flag s a \<and> has_flag s b"
  then show "has_flag s (a OR b)"
    by (simp add: has_flag_def bit.conj_disj_distrib)
qed

lemma State_activated_bits:
  "State_activated = State_beforeBindCalled OR State_activateChildrenCalled OR 0b1000"
  by (simp add: State_defs)

lemma State_deactivated_bits:
  "State_deactivated = State_beforeDetachCalled OR State_deactivateChildrenCalled OR 0b10000000"
  by (simp add: State_defs)

text \<open>
  C3, as stated, fails: the state in which exactly \<^verbatim>\<open>activating\<close>, \<^verbatim>\<open>beforeBindCalled\<close> and
  \<^verbatim>\<open>activateChildrenCalled\<close> are set does not pass the test
  \<^verbatim>\<open>(state & State.activated) === State.activated\<close>, \<^verbatim>\<open>stringifyState\<close> prints the three
  names and not \<^verbatim>\<open>activated\<close>, and \<^verbatim>\<open>State.activated\<close> is not the union of the three flags.
\<close>

theorem C3_three_flags_not_activated:
  "\<not> has_flag (State_activating OR State_beforeBindCalled OR State_activateChildrenCalled) State_activated
   \<and> stringifyState (State_activating OR State_beforeBindCalled OR State_activateChildrenCalled)
       = ''activating|beforeBindCalled|activateChildrenCalled''
   \<and> State_activated \<noteq> (State_activating OR State_beforeBindCalled OR State_activateChildrenCalled)"
  by (simp add: State_defs stringifyState_def state_names_def has_flag_def)

text \<open>
  C3, amended: \<^verbatim>\<open>State.activated\<close> (\<^verbatim>\<open>0b1110\<close>) is the union of \<^verbatim>\<open>beforeBindCalled\<close>,
  \<^verbatim>\<open>activateChildrenCalled\<close> and a bit of its own (\<^verbatim>\<open>0b1000\<close>), and shares no bit with
  \<^verbatim>\<open>activating\<close>: a state passes the \<^verbatim>\<open>activated\<close> test exactly when it has those two flags
  and that bit. Symmetrically \<^verbatim>\<open>State.deactivated\<close> (\<^verbatim>\<open>0b1110_0000\<close>) is the union of
  \<^verbatim>\<open>beforeDetachCalled\<close>, \<^verbatim>\<open>deactivateChildrenCalled\<close> and the bit \<^verbatim>\<open>0b1000_0000\<close>, and
  shares no bit with \<^verbatim>\<open>deactivating\<close>.
\<close>

theorem C3_activated_is_two_flags_and_own_bit:
  "(has_flag s State_activated \<longleftrightarrow>
      has_flag s State_beforeBindCalled \<and> has_flag s State_activateChildrenCalled \<and> has_flag s 0b1000)
   \<and> State_activated AND State_activating = 0
   \<and> (has_flag s State_deactivated \<longleftrightarrow>
      has_flag s State_beforeDetachCalled \<and> has_flag s State_deactivateChildrenCalled
      \<and> has_flag s 0b10000000)
   \<and> State_deactivated AND State_deactivating = 0"
proof -
  have "State_activated AND State_activating = 0" "State_deactivated AND State_deactivating = 0"
    by (simp_all add: State_defs)
  then show ?thesis
    by (simp add: State_activated_bits State_deactivated_bits has_flag_OR)
qed

theorem C3_activated_witness:
  "has_flag 0b1110 State_activated \<and> has_flag 0b11100000 State_deactivated
   \<and> stringifyState 0b1110 = ''activated'' \<and> stringifyState 0b11100000 = ''deactivated''"
proof -
  have 1: "has_flag 0b1110 State_activated"
    using C3_activated_is_two_flags_and_own_bit [of "0b1110"]
    by (simp add: has_flag_def State_defs)
  have 2: "has_flag 0b11100000 State_deactivated"
    using C3_activated_is_two_flags_and_own_bit [of "0b11100000"]
    by (simp add: has_flag_def State_defs)
  have 3: "stringifyState 0b1110 = ''activated''" "stringifyState 0b11100000 = ''deactivated''"
    by (simp_all add: State_defs stringifyState_def state_names_def has_flag_def)
  from 1 2 3 show ?thesis by simp
qed

section \<open>What binding and unbinding leave alone\<close>

lemma queue_CB_unbind [simp]: "iw_taskQueue (CB_unbind i flags w) = iw_taskQueue w"
  by (simp add: CB_unbind_def set_part_def add_trace_def Let_def split: prod.splits)

lemma ib_fields_CB_unbind [simp]:
  "ib_task (iw_binding (CB_unbind i flags w)) = ib_task (iw_binding w)"
  "ib_isBound (iw_binding (CB_unbind i flags w)) = ib_isBound (iw_binding w)"
  "ib_scope (iw_binding (CB_unbind i flags w)) = ib_scope (iw_binding w)"
  "targetObserver_type (iw_binding (CB_unbind i flags w)) = targetObserver_type (iw_binding w)"
  "interpolation_parts (iw_binding (CB_unbind i flags w)) = interpolation_parts (iw_binding w)"
  "length (partBindings (iw_binding (CB_unbind i flags w))) = length (partBindings (iw_binding w))"
  "iw_target (CB_unbind i flags w) = iw_target w"
  "iw_store (CB_unbind i flags w) = iw_store w"
  by (simp_all add: CB_unbind_def set_part_def add_trace_def Let_def split: prod.splits)

lemma queue_CB_bind [simp]: "iw_taskQueue (CB_bind K i flags scope hostScope w) = iw_taskQueue w"
  by (simp add: CB_bind_def set_part_def add_trace_def Let_def split: prod.splits)

lemma ib_fields_CB_bind [simp]:
  "ib_task (iw_binding (CB_bind K i flags scope hostScope w)) = ib_task (iw_binding w)"
  "ib_isBound (iw_binding (CB_bind K i flags scope hostScope w)) = ib_isBound (iw_binding w)"
  "ib_scope (iw_binding (CB_bind K i flags scope hostScope w)) = ib_scope (iw_binding w)"
  "targetObserver_type (iw_binding (CB_bind K i flags scope hostScope w)) = targetObserver_type (iw_binding w)"
  "interpolation_parts (iw_binding (CB_bind K i flags scope hostScope w)) = interpolation_parts (iw_binding w)"
  "length (partBindings (iw_binding (CB_bind K i flags scope hostScope w))) = length (partBindings (iw_binding w))"
  "iw_target (CB_bind K i flags scope hostScope w) = iw_target w"
  "iw_store (CB_bind K i flags scope hostScope w) = iw_store w"
  by (simp_all add: CB_bind_def set_part_def add_trace_def Let_def split: prod.splits)

lemma fold_CB_unbind_fields [simp]:
  "iw_taskQueue (fold (\<lambda>i. CB_unbind i flags) is w) = iw_taskQueue w"
  "ib_task (iw_binding (fold (\<lambda>i. CB_unbind i flags) is w)) = ib_task (iw_binding w)"
  "ib_isBound (iw_binding (fold (\<lambda>i. CB_unbind i flags) is w)) = ib_isBound (iw_binding w)"
  "ib_scope (iw_binding (fold (\<lambda>i. CB_unbind i flags) is w)) = ib_scope (iw_binding w)"
  "targetObserver_type (iw_binding (fold (\<lambda>i. CB_unbind i flags) is w)) = targetObserver_type (iw_binding w)"
  "interpolation_parts (iw_binding (fold (\<lambda>i. CB_unbind i flags) is w)) = interpolation_parts (iw_binding w)"
  "length (partBindings (iw_binding (fold (\<lambda>i. CB_unbind i flags) is w))) = length (partBindings (iw_binding w))"
  "iw_target (fold (\<lambda>i. CB_unbind i flags) is w) = iw_target w"
  "iw_store (fold (\<lambda>i. CB_unbind i flags) is w) = iw_store w"
  by (induction "is" arbitrary: w; simp)+

lemma fold_CB_bind_fields [simp]:
  "iw_taskQueue (fold (\<lambda>i. CB_bind K i flags scope hostScope) is w) = iw_taskQueue w"
  "ib_task (iw_binding (fold (\<lambda>i. CB_bind K i flags scope hostScope) is w)) = ib_task (iw_binding w)"
  "ib_isBound (iw_binding (fold (\<lambda>i. CB_bind K i flags scope hostScope) is w)) = ib_isBound (iw_binding w)"
  "ib_scope (iw_binding (fold (\<lambda>i. CB_bind K i flags scope hostScope) is w)) = ib_scope (iw_binding w)"
  "targetObserver_type (iw_binding (fold (\<lambda>i. CB_bind K i flags scope hostScope) is w)) = targetObserver_type (iw_binding w)"
  "interpolation_parts (iw_binding (fold (\<lambda>i. CB_bind K i flags scope hostScope) is w)) = interpolation_parts (iw_binding w)"
  "length (partBindings (iw_binding (fold (\<lambda>i. CB_bind K i flags scope hostScope) is w))) = length (partBindings (iw_binding w))"
  "iw_target (fold (\<lambda>i. CB_bind K i flags scope hostScope) is w) = iw_target w"
  "iw_store (fold (\<lambda>i. CB_bind K i flags scope hostScope) is w) = iw_store w"
  by (induction "is" arbitrary: w; simp)+

lemma length_queue_IB_unbind [simp]:
  "length (iw_taskQueue (IB_unbind flags w)) = length (iw_taskQueue w)"
  by (simp add: IB_unbind_def Let_def)

lemma IB_unbind_fields [simp]:
  "targetObserver_type (iw_binding (IB_unbind flags w)) = targetObserver_type (iw_binding w)"
  "interpolation_parts (iw_binding (IB_unbind flags w)) = interpolation_parts (iw_binding w)"
  "length (partBindings (iw_binding (IB_unbind flags w))) = length (partBindings (iw_binding w))"
  "iw_target (IB_unbind flags w) = iw_target w"
  "iw_store (IB_unbind flags w) = iw_store w"
  by (simp_all add: IB_unbind_def Let_def)

lemma IB_bind_from_bind:
  assumes "\<not> (ib_isBound (iw_binding w) \<and> ib_scope (iw_binding w) = Some scope)"
      and "flags AND LifecycleFlags_fromBind K \<noteq> 0"
  shows "length (iw_taskQueue (IB_bind K flags scope hostScope w)) = length (iw_taskQueue w)
       \<and> iw_target (IB_bind K flags scope hostScope w)
           = IB_result (iw_binding (IB_bind K flags scope hostScope w))
       \<and> last (iw_trace (IB_bind K flags scope hostScope w))
           = SetValue (IB_result (iw_binding (IB_bind K flags scope hostScope w))) flags"
  using assms
  by (simp add: IB_bind_def Let_def IB_updateTarget_immediate IB_shouldQueueFlush_def)


section \<open>When updateTarget defers its write\<close>

lemma IB_updateTarget_set_ib_mode:
  "IB_updateTarget K v flags (set_ib_mode m w) = set_ib_mode m (IB_updateTarget K v flags w)"
  by (simp add: IB_updateTarget_def set_ib_mode_def IB_result_def IB_shouldQueueFlush_def setValue_def
      Let_def split: prod.splits)

text \<open>
  C5, amended: \<^verbatim>\<open>updateTarget\<close> defers the write through the task queue, with the options
  \<^verbatim>\<open>reusable: false, preempt: true\<close>, exactly when the flags do not carry \<^verbatim>\<open>fromBind\<close> and
  the type of the target accessor has the \<^verbatim>\<open>Layout\<close> bit; then the target is not written
  and a pending task holding the result is queued. In every other case the write is applied
  at once and no task is queued. The mode of the binding is not consulted. The write that
  ends a \<^verbatim>\<open>$bind\<close> called with \<^verbatim>\<open>fromBind\<close> in its flags is therefore applied at once,
  whatever the accessor.
\<close>

theorem C5_deferred_iff_flags_and_accessor:
  "(if (flags AND LifecycleFlags_fromBind K) = 0
       \<and> 0 < sint (targetObserver_type (iw_binding w) AND AccessorType_Layout K)
    then iw_target (IB_updateTarget K v flags w) = iw_target w
       \<and> iw_trace (IB_updateTarget K v flags w) = iw_trace w
       \<and> length (iw_taskQueue (IB_updateTarget K v flags w)) = Suc (length (iw_taskQueue w))
       \<and> ib_task (iw_binding (IB_updateTarget K v flags w)) = Some (length (iw_taskQueue w))
       \<and> task_work (iw_taskQueue (IB_updateTarget K v flags w) ! length (iw_taskQueue w))
           = (IB_result (iw_binding w), flags)
       \<and> task_options (iw_taskQueue (IB_updateTarget K v flags w) ! length (iw_taskQueue w))
           = \<lparr>reusable = False, preempt = True\<rparr>
       \<and> (handle_ok (ib_task (iw_binding w)) (iw_taskQueue w) \<longrightarrow>
            task_status (iw_taskQueue (IB_updateTarget K v flags w) ! length (iw_taskQueue w)) = Pending)
    else iw_target (IB_updateTarget K v flags w) = IB_result (iw_binding w)
       \<and> iw_trace (IB_updateTarget K v flags w) = iw_trace w @ [SetValue (IB_result (iw_binding w)) flags]
       \<and> iw_taskQueue (IB_updateTarget K v flags w) = iw_taskQueue w
       \<and> iw_binding (IB_updateTarget K v flags w) = iw_binding w)
   \<and> IB_updateTarget K v flags (set_ib_mode m w) = set_ib_mode m (IB_updateTarget K v flags w)
   \<and> (\<not> (ib_isBound (iw_binding w) \<and> ib_scope (iw_binding w) = Some scope)
        \<and> flags AND LifecycleFlags_fromBind K \<noteq> 0 \<longrightarrow>
      length (iw_taskQueue (IB_bind K flags scope hostScope w)) = length (iw_taskQueue w)
      \<and> iw_target (IB_bind K flags scope hostScope w)
           = IB_result (iw_binding (IB_bind K flags scope hostScope w))
      \<and> last (iw_trace (IB_bind K flags scope hostScope w))
           = SetValue (IB_result (iw_binding (IB_bind K flags scope hostScope w))) flags)"
proof -
  let ?q = "(flags AND LifecycleFlags_fromBind K) = 0
       \<and> 0 < sint (targetObserver_type (iw_binding w) AND AccessorType_Layout K)"
  have a: "?q \<Longrightarrow> IB_shouldQueueFlush K flags (iw_binding w)"
    by (simp add: IB_shouldQueueFlush_def)
  have b: "\<not> ?q \<Longrightarrow> \<not> IB_shouldQueueFlush K flags (iw_binding w)"
    by (simp add: IB_shouldQueueFlush_def)
  have st: "?q \<Longrightarrow> handle_ok (ib_task (iw_binding w)) (iw_taskQueue w) \<Longrightarrow>
            task_status (iw_taskQueue (IB_updateTarget K v flags w) ! length (iw_taskQueue w)) = Pending"
  proof -
    assume q: ?q and ok: "handle_ok (ib_task (iw_binding w)) (iw_taskQueue w)"
    have "ib_task (iw_binding w) \<noteq> Some (length (iw_taskQueue w))"
      using ok by (auto simp: handle_ok_def)
    then show ?thesis
      by (simp add: IB_updateTarget_deferred [OF a [OF q]] cancel_opt_nth_other)
  qed
  have 1: "?q \<Longrightarrow> iw_target (IB_updateTarget K v flags w) = iw_target w
       \<and> iw_trace (IB_updateTarget K v flags w) = iw_trace w
       \<and> length (iw_taskQueue (IB_updateTarget K v flags w)) = Suc (length (iw_taskQueue w))
       \<and> ib_task (iw_binding (IB_updateTarget K v flags w)) = Some (length (iw_taskQueue w))
       \<and> task_work (iw_taskQueue (IB_updateTarget K v flags w) ! length (iw_taskQueue w))
           = (IB_result (iw_binding w), flags)"
    by (simp add: IB_updateTarget_deferred [OF a])
  have opt: "?q \<Longrightarrow> task_options (iw_taskQueue (IB_updateTarget K v flags w) ! length (iw_taskQueue w))
           = \<lparr>reusable = False, preempt = True\<rparr>"
    by (cases "ib_task (iw_binding w)")
       (simp_all add: IB_updateTarget_deferred [OF a] cancel_opt_def cancel_def queueTaskOptions_def
          nth_list_update nth_append)
  have 2: "\<not> ?q \<Longrightarrow> iw_target (IB_updateTarget K v flags w) = IB_result (iw_binding w)
       \<and> iw_trace (IB_updateTarget K v flags w) = iw_trace w @ [SetValue (IB_result (iw_binding w)) flags]
       \<and> iw_taskQueue (IB_updateTarget K v flags w) = iw_taskQueue w
       \<and> iw_binding (IB_updateTarget K v flags w) = iw_binding w"
    by (simp add: IB_updateTarget_immediate [OF b])
  show ?thesis
    using 1 2 st opt IB_updateTarget_set_ib_mode [of K v flags m w]
      IB_bind_from_bind [of w scope flags K hostScope]
    by (cases ?q) simp_all
qed


lemma example_one_time_eval:
  "example_one_time =
     \<lparr>iw_store = example_store (JStr ''X'') (JStr ''Y''),
      iw_binding = \<lparr>ib_isBound = True, ib_scope = Some 7, ib_hostScope = None,
        partBindings =
          [\<lparr>cb_sourceExpression = access_scope ''a'', cb_mode = 2, cb_value = JStr ''X'',
            cb_scope = Some 7, cb_hostScope = None, cb_task = None, cb_isBound = True,
            cb_obs = \<lparr>version = 0, slots = [(Property 7 ''a'', 0)]\<rparr>\<rparr>,
           \<lparr>cb_sourceExpression = access_scope ''b'', cb_mode = 2, cb_value = JStr ''Y'',
            cb_scope = Some 7, cb_hostScope = None, cb_task = None, cb_isBound = True,
            cb_obs = \<lparr>version = 0, slots = [(Property 7 ''b'', 0)]\<rparr>\<rparr>],
        interpolation_parts = ['''', '' and '', ''''],
        ib_mode = 1, targetObserver_type = 64, ib_task = None\<rparr>,
      iw_taskQueue = [], iw_target = JStr ''X and Y'',
      iw_trace = [Evaluate True, Evaluate True, SetValue (JStr ''X and Y'') 32]\<rparr>"
  by (simp add: example_one_time_def example_bound_eval example_consts_def)

text \<open>
  C5, as stated, fails: a binding whose mode is \<^verbatim>\<open>oneTime\<close>, on a layout-affecting target,
  notified of a change outside the bind phase, defers its write all the same; and a
  \<^verbatim>\<open>$bind\<close> whose flags do not carry \<^verbatim>\<open>fromBind\<close> defers its initial write, leaving the
  target as it was.
\<close>

theorem C5_one_time_write_is_deferred:
  "ib_mode (iw_binding example_one_time) = BindingMode_oneTime example_consts
   \<and> iw_target (CB_handleChange example_consts 0 (JStr ''Z'') (JStr ''X'') 0 example_one_time)
       = JStr ''X and Y''
   \<and> map task_status
        (iw_taskQueue (CB_handleChange example_consts 0 (JStr ''Z'') (JStr ''X'') 0 example_one_time))
       = [Pending]
   \<and> map task_work
        (iw_taskQueue (CB_handleChange example_consts 0 (JStr ''Z'') (JStr ''X'') 0 example_one_time))
       = [(JStr ''Z and Y'', 0)]
   \<and> iw_target (IB_bind example_consts 0 7 None example_world) = JUndefined
   \<and> map task_status (iw_taskQueue (IB_bind example_consts 0 7 None example_world)) = [Pending]
   \<and> map task_work (iw_taskQueue (IB_bind example_consts 0 7 None example_world))
       = [(JStr ''X and Y'', 0)]"
proof -
  have "iw_target (CB_handleChange example_consts 0 (JStr ''Z'') (JStr ''X'') 0 example_one_time)
       = JStr ''X and Y''
   \<and> map task_status
        (iw_taskQueue (CB_handleChange example_consts 0 (JStr ''Z'') (JStr ''X'') 0 example_one_time))
       = [Pending]
   \<and> map task_work
        (iw_taskQueue (CB_handleChange example_consts 0 (JStr ''Z'') (JStr ''X'') 0 example_one_time))
       = [(JStr ''Z and Y'', 0)]"
    by (simp add: example_one_time_eval IB_defs example_defs obs_defs js_defs queue_defs Let_def
        concat_loop.simps)
  moreover have "iw_target (IB_bind example_consts 0 7 None example_world) = JUndefined
   \<and> map task_status (iw_taskQueue (IB_bind example_consts 0 7 None example_world)) = [Pending]
   \<and> map task_work (iw_taskQueue (IB_bind example_consts 0 7 None example_world))
       = [(JStr ''X and Y'', 0)]"
    by (simp add: IB_defs example_defs obs_defs js_defs queue_defs Let_def upt_0_2
        concat_loop.simps)
  moreover have "ib_mode (iw_binding example_one_time) = BindingMode_oneTime example_consts"
    by (simp add: example_one_time_eval example_consts_def)
  ultimately show ?thesis by simp
qed

theorem C5_witness:
  "(0 AND LifecycleFlags_fromBind example_consts) = 0
   \<and> 0 < sint (targetObserver_type (iw_binding example_bound) AND AccessorType_Layout example_consts)
   \<and> handle_ok (ib_task (iw_binding example_bound)) (iw_taskQueue example_bound)
   \<and> iw_target (IB_updateTarget example_consts JUndefined 0 example_bound) = JStr ''X and Y''
   \<and> iw_trace (IB_updateTarget example_consts JUndefined 0 example_bound) = iw_trace example_bound
   \<and> length (iw_taskQueue (IB_updateTarget example_consts JUndefined 0 example_bound)) = 1
   \<and> task_status (iw_taskQueue (IB_updateTarget example_consts JUndefined 0 example_bound) ! 0) = Pending
   \<and> \<not> (ib_isBound (iw_binding example_world) \<and> ib_scope (iw_binding example_world) = Some 7)
   \<and> 32 AND LifecycleFlags_fromBind example_consts \<noteq> 0
   \<and> length (iw_taskQueue (IB_bind example_consts 32 7 None example_world)) = 0
   \<and> iw_target (IB_bind example_consts 32 7 None example_world) = JStr ''X and Y''"
proof -
  have 1: "(0 AND LifecycleFlags_fromBind example_consts) = 0"
    "0 < sint (targetObserver_type (iw_binding example_bound) AND AccessorType_Layout example_consts)"
    "handle_ok (ib_task (iw_binding example_bound)) (iw_taskQueue example_bound)"
    by (simp_all add: example_bound_eval example_consts_def handle_ok_def)
  have 2: "\<not> (ib_isBound (iw_binding example_world) \<and> ib_scope (iw_binding example_world) = Some 7)"
    "32 AND LifecycleFlags_fromBind example_consts \<noteq> 0"
    by (simp_all add: example_defs)
  have 3: "iw_target example_bound = JStr ''X and Y''" "iw_taskQueue example_bound = []"
    by (simp_all add: example_bound_eval)
  have 4: "IB_result (iw_binding (IB_bind example_consts 32 7 None example_world)) = JStr ''X and Y''"
    by (simp add: example_bound_def [symmetric] example_bound_eval IB_result_def part_at_def
        concat_loop.simps js_defs)
  have 5: "iw_taskQueue example_world = []"
    by (simp add: example_world_def)
  from C5_deferred_iff_flags_and_accessor
         [where K = example_consts and flags = 0 and w = example_bound and v = JUndefined
            and m = 0 and scope = 7 and hostScope = None]
  have a: "iw_target (IB_updateTarget example_consts JUndefined 0 example_bound) = JStr ''X and Y''
     \<and> iw_trace (IB_updateTarget example_consts JUndefined 0 example_bound) = iw_trace example_bound
     \<and> length (iw_taskQueue (IB_updateTarget example_consts JUndefined 0 example_bound)) = 1
     \<and> task_status (iw_taskQueue (IB_updateTarget example_consts JUndefined 0 example_bound) ! 0) = Pending"
    using 1 3 by simp
  from C5_deferred_iff_flags_and_accessor
         [where K = example_consts and flags = 32 and w = example_world and scope = 7
            and hostScope = None and v = JUndefined and m = 0]
  have b: "length (iw_taskQueue (IB_bind example_consts 32 7 None example_world)) = 0
     \<and> iw_target (IB_bind example_consts 32 7 None example_world) = JStr ''X and Y''"
    using 2 4 5 by simp
  from 1 2 a b show ?thesis by simp
qed


section \<open>When a content binding takes a value as changed\<close>

lemmas CB2_defs =
  removeChild_def insertBefore_def set_textContent_def node_ref_def CB2_updateTarget_def
  CB2_handleChange_def CB2_handleCollectionChange_def CB2_unbind_def CB2_bind_def CB2_task_work_def
  CB2_runTask_def CB2_flush_def


lemma example_text_bound_eval:
  "example_text_bound =
     \<lparr>cw_store = example_store (JStr ''1'') JUndefined,
      cw_binding =
        \<lparr>cb_sourceExpression = access_scope ''a'', cb_mode = 2, cb_value = JStr ''1'',
         cb_scope = Some 7, cb_hostScope = None, cb_task = None, cb_isBound = True,
         cb_obs = \<lparr>version = 0, slots = [(Property 7 ''a'', 0)]\<rparr>\<rparr>,
      cw_domWriteQueue = [], cw_textContent = ''1'', cw_target_has_parent = True,
      cw_before_target = [], cw_trace = [Evaluate True, SetTextContent ''1'']\<rparr>"
  by (simp add: example_text_bound_def example_text_def CB2_defs IB_defs example_defs obs_defs
      js_defs queue_defs Let_def)

lemma example_numeric_eval:
  "example_numeric =
     \<lparr>iw_store = example_store (JStr ''1'') (JStr ''Y''),
      iw_binding = \<lparr>ib_isBound = True, ib_scope = Some 7, ib_hostScope = None,
        partBindings =
          [\<lparr>cb_sourceExpression = access_scope ''a'', cb_mode = 2, cb_value = JStr ''1'',
            cb_scope = Some 7, cb_hostScope = None, cb_task = None, cb_isBound = True,
            cb_obs = \<lparr>version = 0, slots = [(Property 7 ''a'', 0)]\<rparr>\<rparr>,
           \<lparr>cb_sourceExpression = access_scope ''b'', cb_mode = 2, cb_value = JStr ''Y'',
            cb_scope = Some 7, cb_hostScope = None, cb_task = None, cb_isBound = True,
            cb_obs = \<lparr>version = 0, slots = [(Property 7 ''b'', 0)]\<rparr>\<rparr>],
        interpolation_parts = ['''', '' and '', ''''],
        ib_mode = 2, targetObserver_type = 64, ib_task = None\<rparr>,
      iw_taskQueue = [], iw_target = JStr ''1 and Y'',
      iw_trace = [Evaluate True, Evaluate True, SetValue (JStr ''1 and Y'') 32]\<rparr>"
  by (simp add: example_numeric_def IB_defs example_defs obs_defs js_defs queue_defs Let_def upt_0_2
      concat_loop.simps)

lemma handleChange_newValue_events:
  "\<forall>e \<in> set (snd (snd (handleChange_newValue K st nv flags b))). \<not> is_target_write e"
  by (simp add: handleChange_newValue_def Let_def is_target_write_def split: prod.splits)

lemma CB_handleChange_unchanged:
  assumes "i < length (partBindings (iw_binding w))"
      and "cb_isBound (partBindings (iw_binding w) ! i)"
      and "loose_eq (StringToNumber K) (fst (handleChange_newValue K (iw_store w) nv flags (partBindings (iw_binding w) ! i)))
             (cb_value (partBindings (iw_binding w) ! i))"
  shows "cb_value (partBindings (iw_binding (CB_handleChange K i nv ov flags w)) ! i)
           = cb_value (partBindings (iw_binding w) ! i)
       \<and> iw_target (CB_handleChange K i nv ov flags w) = iw_target w
       \<and> iw_taskQueue (CB_handleChange K i nv ov flags w) = iw_taskQueue w
       \<and> filter is_target_write (iw_trace (CB_handleChange K i nv ov flags w))
           = filter is_target_write (iw_trace w)"
proof -
  obtain v b1 evs where h: "handleChange_newValue K (iw_store w) nv flags (partBindings (iw_binding w) ! i) = (v, b1, evs)"
    by (cases "handleChange_newValue K (iw_store w) nv flags (partBindings (iw_binding w) ! i)") auto
  have val: "cb_value b1 = cb_value (partBindings (iw_binding w) ! i)"
    using h by (auto simp: handleChange_newValue_def Let_def split: prod.splits if_splits)
  have evs: "filter is_target_write evs = []"
    using handleChange_newValue_events [of K "iw_store w" nv flags "partBindings (iw_binding w) ! i"] h
    by (simp add: filter_empty_conv)
  show ?thesis
    using assms h val evs
    by (simp add: CB_handleChange_def Let_def set_part_def add_trace_def)
qed


text \<open>
  A number and a string are loosely equal exactly when the conversion reads the string as
  that number, whatever the conversion is; \<^verbatim>\<open>null\<close> and \<^verbatim>\<open>undefined\<close> are loosely equal
  under every conversion.
\<close>

lemma loose_eq_number_string:
  "loose_eq s2n (JNum n) (JStr s) = (s2n s = Some n)"
  "loose_eq s2n (JStr s) (JNum n) = (s2n s = Some n)"
  by (simp_all add: loose_eq_def loose_eq_prim_def bool_to_num_def is_object_def)

lemma loose_eq_null_undefined:
  "loose_eq s2n JNull JUndefined"
  "loose_eq s2n JUndefined JNull"
  by (simp_all add: loose_eq_def loose_eq_prim_def bool_to_num_def is_object_def)

text \<open>
  So a part whose cached value is a string, notified of the number that the conversion reads
  in that string, is left unchanged: nothing is cached, written or queued. With the
  conversion of JavaScript this covers 1 against \<open>"1.0"\<close>, 16 against \<open>"0x10"\<close> and 100
  against \<open>"1e2"\<close>.
\<close>

lemma CB_handleChange_number_against_string:
  assumes "i < length (partBindings (iw_binding w))"
      and "cb_isBound (partBindings (iw_binding w) ! i)"
      and "cb_value (partBindings (iw_binding w) ! i) = JStr s"
      and "StringToNumber K s = Some n"
      and "fst (handleChange_newValue K (iw_store w) nv flags (partBindings (iw_binding w) ! i)) = JNum n"
  shows "cb_value (partBindings (iw_binding (CB_handleChange K i nv ov flags w)) ! i) = JStr s
       \<and> iw_target (CB_handleChange K i nv ov flags w) = iw_target w
       \<and> iw_taskQueue (CB_handleChange K i nv ov flags w) = iw_taskQueue w"
  using CB_handleChange_unchanged [of i w K nv flags ov] assms
  by (simp add: loose_eq_number_string)


lemma handleChange_newValue_fields:
  "handleChange_newValue K st nv flags b = (v, b1, evs) \<Longrightarrow>
     cb_value b1 = cb_value b \<and> cb_task b1 = cb_task b \<and> cb_isBound b1 = cb_isBound b
     \<and> cb_scope b1 = cb_scope b \<and> cb_mode b1 = cb_mode b
     \<and> cb_sourceExpression b1 = cb_sourceExpression b"
  by (auto simp: handleChange_newValue_def Let_def split: prod.splits if_splits)

lemma partBindings_IB_updateTarget:
  "partBindings (iw_binding (IB_updateTarget K v flags w)) = partBindings (iw_binding w)"
  by (simp add: IB_updateTarget_def setValue_def Let_def split: prod.splits)

lemma CB_handleChange_changed:
  assumes "i < length (partBindings (iw_binding w))"
      and "cb_isBound (partBindings (iw_binding w) ! i)"
      and "\<not> loose_eq (StringToNumber K) (fst (handleChange_newValue K (iw_store w) nv flags (partBindings (iw_binding w) ! i)))
             (cb_value (partBindings (iw_binding w) ! i))"
  shows "cb_value (partBindings (iw_binding (CB_handleChange K i nv ov flags w)) ! i)
           = fst (handleChange_newValue K (iw_store w) nv flags (partBindings (iw_binding w) ! i))
       \<and> (if IB_shouldQueueFlush K flags (iw_binding w)
          then length (iw_taskQueue (CB_handleChange K i nv ov flags w)) = Suc (length (iw_taskQueue w))
          else filter is_target_write (iw_trace (CB_handleChange K i nv ov flags w))
                 = filter is_target_write (iw_trace w)
                     @ [SetValue (iw_target (CB_handleChange K i nv ov flags w)) flags])"
proof -
  obtain v b1 evs where h: "handleChange_newValue K (iw_store w) nv flags (partBindings (iw_binding w) ! i) = (v, b1, evs)"
    by (cases "handleChange_newValue K (iw_store w) nv flags (partBindings (iw_binding w) ! i)") auto
  note f = handleChange_newValue_fields [OF h]
  have evs: "filter is_target_write evs = []"
    using handleChange_newValue_events [of K "iw_store w" nv flags "partBindings (iw_binding w) ! i"] h
    by (simp add: filter_empty_conv)
  let ?b3 = "(if instanceof_Array v then observeCollection v (b1\<lparr>cb_value := v\<rparr>) else b1\<lparr>cb_value := v\<rparr>)"
  have v3: "cb_value ?b3 = v"
    by (simp add: observeCollection_def split: jsval.splits)
  define W1 where "W1 = set_part i ?b3 (add_trace evs w)"
  have eq: "CB_handleChange K i nv ov flags w = IB_updateTarget K v flags W1"
    using assms h f by (simp add: CB_handleChange_def Let_def W1_def)
  have W1: "partBindings (iw_binding W1) ! i = ?b3" "iw_taskQueue W1 = iw_taskQueue w"
    "iw_trace W1 = iw_trace w @ evs"
    "IB_shouldQueueFlush K flags (iw_binding W1) = IB_shouldQueueFlush K flags (iw_binding w)"
    using assms(1) by (simp_all add: W1_def set_part_def add_trace_def IB_shouldQueueFlush_def)
  have val: "cb_value (partBindings (iw_binding (IB_updateTarget K v flags W1)) ! i) = v"
    using W1(1) v3 by (simp only: partBindings_IB_updateTarget)
  show ?thesis
  proof (cases "IB_shouldQueueFlush K flags (iw_binding w)")
    case True
    then have q: "IB_shouldQueueFlush K flags (iw_binding W1)" using W1(4) by simp
    show ?thesis
      using True val h W1(2)
      by (simp add: eq IB_updateTarget_deferred [OF q])
  next
    case False
    then have q: "\<not> IB_shouldQueueFlush K flags (iw_binding W1)" using W1(4) by simp
    show ?thesis
      using False val h evs W1(3)
      by (simp add: eq IB_updateTarget_immediate [OF q] is_target_write_def)
  qed
qed

lemma CB2_handleChange_unchanged:
  assumes "cb_isBound (cw_binding c)"
      and "strict_eq (fst (handleChange_newValue K (cw_store c) nv flags (cw_binding c)))
             (cb_value (cw_binding c))"
  shows "cb_value (cw_binding (CB2_handleChange K nv ov flags c)) = cb_value (cw_binding c)
       \<and> cw_textContent (CB2_handleChange K nv ov flags c) = cw_textContent c
       \<and> cw_before_target (CB2_handleChange K nv ov flags c) = cw_before_target c
       \<and> cw_domWriteQueue (CB2_handleChange K nv ov flags c) = cw_domWriteQueue c
       \<and> filter is_target_write (cw_trace (CB2_handleChange K nv ov flags c))
           = filter is_target_write (cw_trace c)"
proof -
  obtain v b1 evs where h: "handleChange_newValue K (cw_store c) nv flags (cw_binding c) = (v, b1, evs)"
    by (cases "handleChange_newValue K (cw_store c) nv flags (cw_binding c)") auto
  note f = handleChange_newValue_fields [OF h]
  have evs: "filter is_target_write evs = []"
    using handleChange_newValue_events [of K "cw_store c" nv flags "cw_binding c"] h
    by (simp add: filter_empty_conv)
  show ?thesis
    using assms h f evs by (simp add: CB2_handleChange_def Let_def)
qed

lemma CB2_handleChange_changed:
  assumes "cb_isBound (cw_binding c)"
      and "\<not> strict_eq (fst (handleChange_newValue K (cw_store c) nv flags (cw_binding c)))
             (cb_value (cw_binding c))"
  shows "(if (flags AND LifecycleFlags_fromBind K) = 0
          then length (cw_domWriteQueue (CB2_handleChange K nv ov flags c)) = Suc (length (cw_domWriteQueue c))
             \<and> task_work (cw_domWriteQueue (CB2_handleChange K nv ov flags c) ! length (cw_domWriteQueue c))
                 = (fst (handleChange_newValue K (cw_store c) nv flags (cw_binding c)), flags)
          else cb_value (cw_binding (CB2_handleChange K nv ov flags c))
                 = fst (handleChange_newValue K (cw_store c) nv flags (cw_binding c))
             \<and> filter is_target_write (cw_trace (CB2_handleChange K nv ov flags c))
                 \<noteq> filter is_target_write (cw_trace c))"
proof -
  obtain v b1 evs where h: "handleChange_newValue K (cw_store c) nv flags (cw_binding c) = (v, b1, evs)"
    by (cases "handleChange_newValue K (cw_store c) nv flags (cw_binding c)") auto
  note f = handleChange_newValue_fields [OF h]
  have evs: "filter is_target_write evs = []"
    using handleChange_newValue_events [of K "cw_store c" nv flags "cw_binding c"] h
    by (simp add: filter_empty_conv)
  show ?thesis
    using assms h f evs
    by (simp add: CB2_handleChange_def Let_def queueTask_def CB2_updateTarget_def removeChild_def
          insertBefore_def set_textContent_def is_target_write_def nth_append)
qed


text \<open>
  C7, as stated, fails for \<^verbatim>\<open>ContentBinding2\<close>: its cached value is the string \<open>"1"\<close>, it
  is notified of the number \<open>1\<close>, which is loosely equal, and it queues a write; the
  flush writes the text and replaces the cached value.
\<close>

theorem C7_text_binding_writes_on_loosely_equal_value:
  "loose_eq (StringToNumber example_consts) (JNum 1) (JStr ''1'')
   \<and> cb_isBound (cw_binding example_text_bound)
   \<and> cb_value (cw_binding example_text_bound) = JStr ''1''
   \<and> map task_status
         (cw_domWriteQueue (CB2_handleChange example_consts (JNum 1) (JStr ''1'') 0 example_text_bound))
       = [Pending]
   \<and> cb_value (cw_binding
         (CB2_flush (CB2_handleChange example_consts (JNum 1) (JStr ''1'') 0 example_text_bound)))
       = JNum 1
   \<and> cw_trace (CB2_flush (CB2_handleChange example_consts (JNum 1) (JStr ''1'') 0 example_text_bound))
       = cw_trace example_text_bound @ [SetTextContent ''1'']"
  by (simp add: example_text_bound_eval CB2_defs IB_defs example_defs obs_defs js_defs queue_defs
      Let_def nat_to_str.simps)

text \<open>
  C7, amended: \<^verbatim>\<open>ContentBinding.handleChange\<close> (a part of an interpolation) compares the
  new value, after the re-evaluation if there is one, with the cached value by loose
  inequality, \<^verbatim>\<open>!=\<close> taken with whatever conversion of strings to numbers the language has
  (\<open>StringToNumber K\<close> is any function): when they are loosely equal (as 1 and "1" are) the cached value stays, the
  target is not written and no task is queued; otherwise the new value is cached and
  \<^verbatim>\<open>updateTarget\<close> of the owner writes or queues a write. \<^verbatim>\<open>ContentBinding2.handleChange\<close>
  compares by strict equality: when the values are strictly equal nothing is cached,
  written, queued or canceled; otherwise a write is queued, or applied at once from the
  bind phase.
\<close>

theorem C7_loose_for_parts_strict_for_text:
  "(i < length (partBindings (iw_binding w)) \<and> cb_isBound (partBindings (iw_binding w) ! i) \<longrightarrow>
     (if loose_eq (StringToNumber K) (fst (handleChange_newValue K (iw_store w) nv flags (partBindings (iw_binding w) ! i)))
             (cb_value (partBindings (iw_binding w) ! i))
      then cb_value (partBindings (iw_binding (CB_handleChange K i nv ov flags w)) ! i)
             = cb_value (partBindings (iw_binding w) ! i)
         \<and> iw_target (CB_handleChange K i nv ov flags w) = iw_target w
         \<and> iw_taskQueue (CB_handleChange K i nv ov flags w) = iw_taskQueue w
         \<and> filter is_target_write (iw_trace (CB_handleChange K i nv ov flags w))
             = filter is_target_write (iw_trace w)
      else cb_value (partBindings (iw_binding (CB_handleChange K i nv ov flags w)) ! i)
             = fst (handleChange_newValue K (iw_store w) nv flags (partBindings (iw_binding w) ! i))
         \<and> (if IB_shouldQueueFlush K flags (iw_binding w)
            then length (iw_taskQueue (CB_handleChange K i nv ov flags w)) = Suc (length (iw_taskQueue w))
            else filter is_target_write (iw_trace (CB_handleChange K i nv ov flags w))
                   = filter is_target_write (iw_trace w)
                       @ [SetValue (iw_target (CB_handleChange K i nv ov flags w)) flags])))
   \<and> (cb_isBound (cw_binding c) \<longrightarrow>
     (if strict_eq (fst (handleChange_newValue K (cw_store c) nv flags (cw_binding c)))
             (cb_value (cw_binding c))
      then cb_value (cw_binding (CB2_handleChange K nv ov flags c)) = cb_value (cw_binding c)
         \<and> cw_textContent (CB2_handleChange K nv ov flags c) = cw_textContent c
         \<and> cw_before_target (CB2_handleChange K nv ov flags c) = cw_before_target c
         \<and> cw_domWriteQueue (CB2_handleChange K nv ov flags c) = cw_domWriteQueue c
         \<and> filter is_target_write (cw_trace (CB2_handleChange K nv ov flags c))
             = filter is_target_write (cw_trace c)
      else (if (flags AND LifecycleFlags_fromBind K) = 0
          then length (cw_domWriteQueue (CB2_handleChange K nv ov flags c)) = Suc (length (cw_domWriteQueue c))
             \<and> task_work (cw_domWriteQueue (CB2_handleChange K nv ov flags c) ! length (cw_domWriteQueue c))
                 = (fst (handleChange_newValue K (cw_store c) nv flags (cw_binding c)), flags)
          else cb_value (cw_binding (CB2_handleChange K nv ov flags c))
                 = fst (handleChange_newValue K (cw_store c) nv flags (cw_binding c))
             \<and> filter is_target_write (cw_trace (CB2_handleChange K nv ov flags c))
                 \<noteq> filter is_target_write (cw_trace c))))"
proof (intro conjI impI)
  assume a: "i < length (partBindings (iw_binding w)) \<and> cb_isBound (partBindings (iw_binding w) ! i)"
  show "if loose_eq (StringToNumber K) (fst (handleChange_newValue K (iw_store w) nv flags (partBindings (iw_binding w) ! i)))
             (cb_value (partBindings (iw_binding w) ! i))
      then cb_value (partBindings (iw_binding (CB_handleChange K i nv ov flags w)) ! i)
             = cb_value (partBindings (iw_binding w) ! i)
         \<and> iw_target (CB_handleChange K i nv ov flags w) = iw_target w
         \<and> iw_taskQueue (CB_handleChange K i nv ov flags w) = iw_taskQueue w
         \<and> filter is_target_write (iw_trace (CB_handleChange K i nv ov flags w))
             = filter is_target_write (iw_trace w)
      else cb_value (partBindings (iw_binding (CB_handleChange K i nv ov flags w)) ! i)
             = fst (handleChange_newValue K (iw_store w) nv flags (partBindings (iw_binding w) ! i))
         \<and> (if IB_shouldQueueFlush K flags (iw_binding w)
            then length (iw_taskQueue (CB_handleChange K i nv ov flags w)) = Suc (length (iw_taskQueue w))
            else filter is_target_write (iw_trace (CB_handleChange K i nv ov flags w))
                   = filter is_target_write (iw_trace w)
                       @ [SetValue (iw_target (CB_handleChange K i nv ov flags w)) flags])"
  proof (cases "loose_eq (StringToNumber K) (fst (handleChange_newValue K (iw_store w) nv flags (partBindings (iw_binding w) ! i)))
             (cb_value (partBindings (iw_binding w) ! i))")
    case True
    with a CB_handleChange_unchanged [of i w K nv flags ov] show ?thesis
      by simp
  next
    case False
    with a CB_handleChange_changed [of i w K nv flags ov] show ?thesis
      by (simp only: if_False) simp
  qed
next
  assume b: "cb_isBound (cw_binding c)"
  show "if strict_eq (fst (handleChange_newValue K (cw_store c) nv flags (cw_binding c)))
             (cb_value (cw_binding c))
      then cb_value (cw_binding (CB2_handleChange K nv ov flags c)) = cb_value (cw_binding c)
         \<and> cw_textContent (CB2_handleChange K nv ov flags c) = cw_textContent c
         \<and> cw_before_target (CB2_handleChange K nv ov flags c) = cw_before_target c
         \<and> cw_domWriteQueue (CB2_handleChange K nv ov flags c) = cw_domWriteQueue c
         \<and> filter is_target_write (cw_trace (CB2_handleChange K nv ov flags c))
             = filter is_target_write (cw_trace c)
      else (if (flags AND LifecycleFlags_fromBind K) = 0
          then length (cw_domWriteQueue (CB2_handleChange K nv ov flags c)) = Suc (length (cw_domWriteQueue c))
             \<and> task_work (cw_domWriteQueue (CB2_handleChange K nv ov flags c) ! length (cw_domWriteQueue c))
                 = (fst (handleChange_newValue K (cw_store c) nv flags (cw_binding c)), flags)
          else cb_value (cw_binding (CB2_handleChange K nv ov flags c))
                 = fst (handleChange_newValue K (cw_store c) nv flags (cw_binding c))
             \<and> filter is_target_write (cw_trace (CB2_handleChange K nv ov flags c))
                 \<noteq> filter is_target_write (cw_trace c))"
  proof (cases "strict_eq (fst (handleChange_newValue K (cw_store c) nv flags (cw_binding c)))
             (cb_value (cw_binding c))")
    case True
    with b CB2_handleChange_unchanged [of c K nv flags ov] show ?thesis
      by simp
  next
    case False
    with b CB2_handleChange_changed [of c K nv flags ov] show ?thesis
      by (simp only: if_False) simp
  qed
qed

theorem C7_witness:
  "0 < length (partBindings (iw_binding example_numeric))
   \<and> cb_isBound (partBindings (iw_binding example_numeric) ! 0)
   \<and> cb_value (partBindings (iw_binding example_numeric) ! 0) = JStr ''1''
   \<and> loose_eq (StringToNumber example_consts) (JNum 1) (JStr ''1'')
   \<and> cb_value (partBindings (iw_binding
         (CB_handleChange example_consts 0 (JNum 1) (JStr ''1'') 0 example_numeric)) ! 0) = JStr ''1''
   \<and> iw_target (CB_handleChange example_consts 0 (JNum 1) (JStr ''1'') 0 example_numeric)
       = JStr ''1 and Y''
   \<and> iw_taskQueue (CB_handleChange example_consts 0 (JNum 1) (JStr ''1'') 0 example_numeric) = []
   \<and> cb_isBound (cw_binding example_text_bound)
   \<and> strict_eq (JStr ''1'') (cb_value (cw_binding example_text_bound))
   \<and> cw_domWriteQueue (CB2_handleChange example_consts (JStr ''1'') (JStr ''1'') 0 example_text_bound) = []
   \<and> cw_textContent (CB2_handleChange example_consts (JStr ''1'') (JStr ''1'') 0 example_text_bound) = ''1''"
proof -
  have n: "0 < length (partBindings (iw_binding example_numeric))"
    "cb_isBound (partBindings (iw_binding example_numeric) ! 0)"
    "cb_value (partBindings (iw_binding example_numeric) ! 0) = JStr ''1''"
    "iw_target example_numeric = JStr ''1 and Y''"
    "iw_taskQueue example_numeric = []"
    by (simp_all add: example_numeric_eval)
  have nv: "fst (handleChange_newValue example_consts (iw_store example_numeric) (JNum 1) 0
               (partBindings (iw_binding example_numeric) ! 0)) = JNum 1"
    by (simp add: example_numeric_eval handleChange_newValue_def canOptimize_def obs_count_def
        access_scope_def)
  have le: "loose_eq (StringToNumber example_consts) (JNum 1) (JStr ''1'')"
    by (simp add: js_defs example_consts_def)
  have t: "cb_isBound (cw_binding example_text_bound)"
    "cb_value (cw_binding example_text_bound) = JStr ''1''"
    "cw_domWriteQueue example_text_bound = []"
    "cw_textContent example_text_bound = ''1''"
    by (simp_all add: example_text_bound_eval)
  have tv: "fst (handleChange_newValue example_consts (cw_store example_text_bound) (JStr ''1'') 0
               (cw_binding example_text_bound)) = JStr ''1''"
    by (simp add: example_text_bound_eval handleChange_newValue_def canOptimize_def obs_count_def
        access_scope_def)
  from C7_loose_for_parts_strict_for_text
         [where i = 0 and w = example_numeric and K = example_consts and nv = "JNum 1" and flags = 0
            and ov = "JStr ''1''" and c = example_text_bound]
  have 1: "cb_value (partBindings (iw_binding
         (CB_handleChange example_consts 0 (JNum 1) (JStr ''1'') 0 example_numeric)) ! 0) = JStr ''1''
   \<and> iw_target (CB_handleChange example_consts 0 (JNum 1) (JStr ''1'') 0 example_numeric)
       = JStr ''1 and Y''
   \<and> iw_taskQueue (CB_handleChange example_consts 0 (JNum 1) (JStr ''1'') 0 example_numeric) = []"
    using n nv le by simp
  from C7_loose_for_parts_strict_for_text
         [where i = 0 and w = example_numeric and K = example_consts and nv = "JStr ''1''" and flags = 0
            and ov = "JStr ''1''" and c = example_text_bound]
  have 2: "cw_domWriteQueue (CB2_handleChange example_consts (JStr ''1'') (JStr ''1'') 0 example_text_bound) = []
   \<and> cw_textContent (CB2_handleChange example_consts (JStr ''1'') (JStr ''1'') 0 example_text_bound) = ''1''"
    using t tv by simp
  from n le t 1 2 show ?thesis by simp
qed


section \<open>The optimisation of handleChange and the tracked re-evaluation\<close>



lemma version_obs_observe [simp]: "version (obs_observe d r) = version r"
  by (simp add: obs_observe_def)

lemma version_fold_obs_observe [simp]: "version (fold obs_observe ds r) = version r"
  by (induction ds arbitrary: r) simp_all

lemma version_obs_clear [simp]: "version (obs_clear all r) = version r"
  by (simp add: obs_clear_def)



















section \<open>Binding again\<close>

lemma ib_isBound_IB_unbind [simp]: "\<not> ib_isBound (iw_binding (IB_unbind flags w))"
  by (simp add: IB_unbind_def Let_def)

lemma unbind_body_unbound [simp]: "\<not> cb_isBound (fst (unbind_body b))"
  by (simp add: unbind_body_def)

lemma part_CB_unbind:
  "i < length (partBindings (iw_binding w)) \<Longrightarrow>
   \<not> cb_isBound (partBindings (iw_binding (CB_unbind i flags w)) ! i)"
  by (simp add: CB_unbind_def set_part_def add_trace_def Let_def unbind_body_def)

lemma cb_isBound_CB2_unbind [simp]: "\<not> cb_isBound (cw_binding (CB2_unbind flags c))"
  by (simp add: CB2_unbind_def Let_def unbind_body_def)

lemma IB_bind_same_scope:
  "ib_isBound (iw_binding w) \<Longrightarrow> ib_scope (iw_binding w) = Some s \<Longrightarrow> IB_bind K flags s hs w = w"
  by (simp add: IB_bind_def)

lemma IB_bind_other_scope:
  assumes "ib_isBound (iw_binding w)" "ib_scope (iw_binding w) \<noteq> Some s"
  shows "IB_bind K flags s hs w = IB_bind K flags s hs (IB_unbind flags w)"
proof -
  have "\<not> (ib_isBound (iw_binding (IB_unbind flags w)) \<and> ib_scope (iw_binding (IB_unbind flags w)) = Some s)"
    by simp
  then show ?thesis
    using assms by (simp add: IB_bind_def [of K flags s hs w] IB_bind_def [of K flags s hs "IB_unbind flags w"])
qed

lemma CB_bind_same_scope:
  "cb_isBound (partBindings (iw_binding w) ! i) \<Longrightarrow> cb_scope (partBindings (iw_binding w) ! i) = Some s \<Longrightarrow>
   CB_bind K i flags s hs w = w"
  by (simp add: CB_bind_def)

lemma CB_bind_other_scope:
  assumes "i < length (partBindings (iw_binding w))"
      and "cb_isBound (partBindings (iw_binding w) ! i)"
      and "cb_scope (partBindings (iw_binding w) ! i) \<noteq> Some s"
  shows "CB_bind K i flags s hs w = CB_bind K i flags s hs (CB_unbind i flags w)"
proof -
  have u: "\<not> cb_isBound (partBindings (iw_binding (CB_unbind i flags w)) ! i)"
    by (rule part_CB_unbind [OF assms(1)])
  have l: "i < length (partBindings (iw_binding (CB_unbind i flags w)))"
    using assms(1) by simp
  show ?thesis
    using assms u l
    by (simp add: CB_bind_def [of K i flags s hs w] CB_bind_def [of K i flags s hs "CB_unbind i flags w"])
qed

lemma CB2_bind_same_scope:
  "cb_isBound (cw_binding c) \<Longrightarrow> cb_scope (cw_binding c) = Some s \<Longrightarrow> CB2_bind K flags s hs c = c"
  by (simp add: CB2_bind_def)

lemma CB2_bind_other_scope:
  assumes "cb_isBound (cw_binding c)" "cb_scope (cw_binding c) \<noteq> Some s"
  shows "CB2_bind K flags s hs c = CB2_bind K flags s hs (CB2_unbind flags c)"
  using assms
  by (simp add: CB2_bind_def [of K flags s hs c] CB2_bind_def [of K flags s hs "CB2_unbind flags c"])

text \<open>
  C8: for each of the three bindings, \<^verbatim>\<open>$bind\<close> with the scope the binding is already bound
  to returns with the world as it was (nothing is evaluated, subscribed, queued or written);
  \<^verbatim>\<open>$bind\<close> with another scope while bound is \<^verbatim>\<open>$unbind\<close>, which leaves the binding unbound,
  followed by the bind to the new scope.
\<close>

theorem C8_rebind:
  "(ib_isBound (iw_binding w) \<and> ib_scope (iw_binding w) = Some s \<longrightarrow> IB_bind K flags s hs w = w)
   \<and> (ib_isBound (iw_binding w) \<and> ib_scope (iw_binding w) \<noteq> Some s \<longrightarrow>
        IB_bind K flags s hs w = IB_bind K flags s hs (IB_unbind flags w)
        \<and> \<not> ib_isBound (iw_binding (IB_unbind flags w)))
   \<and> (i < length (partBindings (iw_binding w)) \<and> cb_isBound (partBindings (iw_binding w) ! i)
        \<and> cb_scope (partBindings (iw_binding w) ! i) = Some s \<longrightarrow>
        CB_bind K i flags s hs w = w)
   \<and> (i < length (partBindings (iw_binding w)) \<and> cb_isBound (partBindings (iw_binding w) ! i)
        \<and> cb_scope (partBindings (iw_binding w) ! i) \<noteq> Some s \<longrightarrow>
        CB_bind K i flags s hs w = CB_bind K i flags s hs (CB_unbind i flags w)
        \<and> \<not> cb_isBound (partBindings (iw_binding (CB_unbind i flags w)) ! i))
   \<and> (cb_isBound (cw_binding c) \<and> cb_scope (cw_binding c) = Some s \<longrightarrow> CB2_bind K flags s hs c = c)
   \<and> (cb_isBound (cw_binding c) \<and> cb_scope (cw_binding c) \<noteq> Some s \<longrightarrow>
        CB2_bind K flags s hs c = CB2_bind K flags s hs (CB2_unbind flags c)
        \<and> \<not> cb_isBound (cw_binding (CB2_unbind flags c)))"
  using IB_bind_same_scope [of w s K flags hs] IB_bind_other_scope [of w s K flags hs]
    CB_bind_same_scope [of w i s K flags hs] CB_bind_other_scope [of i w s K flags hs]
    part_CB_unbind [of i w flags]
    CB2_bind_same_scope [of c s K flags hs] CB2_bind_other_scope [of c s K flags hs]
  by simp


theorem C8_witness:
  "ib_isBound (iw_binding example_bound)
   \<and> ib_scope (iw_binding example_bound) = Some 7
   \<and> IB_bind example_consts 32 7 None example_bound = example_bound
   \<and> ib_scope (iw_binding example_bound) \<noteq> Some 8
   \<and> iw_trace (IB_bind example_consts 32 8 None example_bound)
       = iw_trace example_bound
           @ [ObsClear True, ObsClear True, Evaluate True, Evaluate True, SetValue (JStr ''X and Y'') 32]
   \<and> cb_isBound (partBindings (iw_binding example_bound) ! 0)
   \<and> cb_scope (partBindings (iw_binding example_bound) ! 0) = Some 7
   \<and> CB_bind example_consts 0 32 7 None example_bound = example_bound
   \<and> iw_trace (CB_bind example_consts 0 32 8 None example_bound)
       = iw_trace example_bound @ [ObsClear True, Evaluate True]
   \<and> cb_isBound (cw_binding example_text_bound)
   \<and> cb_scope (cw_binding example_text_bound) = Some 7
   \<and> CB2_bind example_consts 32 7 None example_text_bound = example_text_bound
   \<and> cw_trace (CB2_bind example_consts 32 8 None example_text_bound)
       = cw_trace example_text_bound @ [ObsClear True, Evaluate True, SetTextContent ''1'']"
proof -
  have a: "ib_isBound (iw_binding example_bound)" "ib_scope (iw_binding example_bound) = Some 7"
    "ib_scope (iw_binding example_bound) \<noteq> Some 8"
    "0 < length (partBindings (iw_binding example_bound))"
    "cb_isBound (partBindings (iw_binding example_bound) ! 0)"
    "cb_scope (partBindings (iw_binding example_bound) ! 0) = Some 7"
    "cb_scope (partBindings (iw_binding example_bound) ! 0) \<noteq> Some 8"
    by (simp_all add: example_bound_eval)
  have c: "cb_isBound (cw_binding example_text_bound)"
    "cb_scope (cw_binding example_text_bound) = Some 7"
    "cb_scope (cw_binding example_text_bound) \<noteq> Some 8"
    by (simp_all add: example_text_bound_eval)
  note same = C8_rebind [where w = example_bound and s = 7 and K = example_consts and flags = 32
      and hs = None and i = 0 and c = example_text_bound]
  note other = C8_rebind [where w = example_bound and s = 8 and K = example_consts and flags = 32
      and hs = None and i = 0 and c = example_text_bound]
  have 1: "IB_bind example_consts 32 7 None example_bound = example_bound"
    "CB_bind example_consts 0 32 7 None example_bound = example_bound"
    "CB2_bind example_consts 32 7 None example_text_bound = example_text_bound"
    using same a c by simp_all
  have 2: "IB_bind example_consts 32 8 None example_bound
             = IB_bind example_consts 32 8 None (IB_unbind 32 example_bound)"
    "CB_bind example_consts 0 32 8 None example_bound
             = CB_bind example_consts 0 32 8 None (CB_unbind 0 32 example_bound)"
    "CB2_bind example_consts 32 8 None example_text_bound
             = CB2_bind example_consts 32 8 None (CB2_unbind 32 example_text_bound)"
    using other a c by simp_all
  have 3: "iw_trace (IB_bind example_consts 32 8 None (IB_unbind 32 example_bound))
       = iw_trace example_bound
           @ [ObsClear True, ObsClear True, Evaluate True, Evaluate True, SetValue (JStr ''X and Y'') 32]"
    by (simp add: example_bound_eval IB_defs example_defs obs_defs js_defs queue_defs Let_def upt_0_2
        concat_loop.simps)
  have 4: "iw_trace (CB_bind example_consts 0 32 8 None (CB_unbind 0 32 example_bound))
       = iw_trace example_bound @ [ObsClear True, Evaluate True]"
    by (simp add: example_bound_eval IB_defs example_defs obs_defs js_defs queue_defs Let_def)
  have 5: "cw_trace (CB2_bind example_consts 32 8 None (CB2_unbind 32 example_text_bound))
       = cw_trace example_text_bound @ [ObsClear True, Evaluate True, SetTextContent ''1'']"
    by (simp add: example_text_bound_eval CB2_defs IB_defs example_defs obs_defs js_defs queue_defs
        Let_def)
  from a c 1 2 3 4 5 show ?thesis by simp
qed


section \<open>The batch queue\<close>

lemma flush_pass_fold:
  "flush_pass fb flags batch i w = fold (\<lambda>r. fb r flags) (drop i batch) w"
proof (induction fb flags batch i w rule: flush_pass.induct)
  case (1 fb flags batch i w)
  show ?case
  proof (cases "i < length batch")
    case True
    then have "drop i batch = batch ! i # drop (Suc i) batch"
      by (simp add: Cons_nth_drop_Suc)
    with True 1 show ?thesis
      by (subst flush_pass.simps) simp
  next
    case False
    then show ?thesis
      by (subst flush_pass.simps) simp
  qed
qed

lemma drain_pass_fold:
  "drain_pass fb flags w = fold (\<lambda>r. fb r flags) (bq_queue w) (w\<lparr>bq_queue := []\<rparr>)"
  by (simp add: drain_pass_def flush_pass_fold)

lemma process_step:
  "bq_queue w \<noteq> [] \<Longrightarrow> BatchQueue_process fb flags w = BatchQueue_process fb flags (drain_pass fb flags w)"
  by (subst BatchQueue_process.simps) (simp add: drain_pass_def)

lemma process_empty:
  "bq_queue w = [] \<Longrightarrow> BatchQueue_process fb flags w = Some w"
  by (subst BatchQueue_process.simps) simp

lemma process_after_passes:
  assumes "bq_queue ((drain_pass fb flags ^^ n) w) = []"
      and "\<forall>m<n. bq_queue ((drain_pass fb flags ^^ m) w) \<noteq> []"
  shows "BatchQueue_process fb flags w = Some ((drain_pass fb flags ^^ n) w)"
  using assms
proof (induction n arbitrary: w)
  case 0
  then show ?case by (simp add: process_empty)
next
  case (Suc n)
  from Suc.prems(2) have ne: "bq_queue w \<noteq> []"
    by (metis funpow_0 zero_less_Suc)
  have a: "bq_queue ((drain_pass fb flags ^^ n) (drain_pass fb flags w)) = []"
    using Suc.prems(1) by (simp add: funpow_swap1)
  have b: "\<forall>m<n. bq_queue ((drain_pass fb flags ^^ m) (drain_pass fb flags w)) \<noteq> []"
  proof (intro allI impI)
    fix m assume "m < n"
    then have "Suc m < Suc n" by simp
    with Suc.prems(2) have "bq_queue ((drain_pass fb flags ^^ Suc m) w) \<noteq> []" by blast
    then show "bq_queue ((drain_pass fb flags ^^ m) (drain_pass fb flags w)) \<noteq> []"
      by (simp add: funpow_swap1)
  qed
  from Suc.IH [OF a b] show ?case
    by (simp add: process_step [OF ne] funpow_swap1)
qed

lemma process_returns_after_passes:
  assumes "BatchQueue_process fb flags w = Some w'"
  shows "\<exists>n. bq_queue ((drain_pass fb flags ^^ n) w) = []
           \<and> (\<forall>m<n. bq_queue ((drain_pass fb flags ^^ m) w) \<noteq> [])
           \<and> w' = (drain_pass fb flags ^^ n) w"
proof (rule BatchQueue_process.raw_induct
    [where P = "\<lambda>fb flags w w'. \<exists>n. bq_queue ((drain_pass fb flags ^^ n) w) = []
           \<and> (\<forall>m<n. bq_queue ((drain_pass fb flags ^^ m) w) \<noteq> [])
           \<and> w' = (drain_pass fb flags ^^ n) w", OF _ assms], goal_cases)
  case (1 process fb flags w w')
  show ?case
  proof (cases "bq_queue w = []")
    case True
    with 1(2) have "w' = w" by simp
    with True show ?thesis
      by (intro exI [of _ 0]) simp
  next
    case False
    with 1(2) have "process fb flags (drain_pass fb flags w) = Some w'"
      by (simp add: drain_pass_def)
    from 1(1) [OF this] obtain n where n:
      "bq_queue ((drain_pass fb flags ^^ n) (drain_pass fb flags w)) = []"
      "\<forall>m<n. bq_queue ((drain_pass fb flags ^^ m) (drain_pass fb flags w)) \<noteq> []"
      "w' = (drain_pass fb flags ^^ n) (drain_pass fb flags w)"
      by blast
    have "\<forall>m<Suc n. bq_queue ((drain_pass fb flags ^^ m) w) \<noteq> []"
    proof (intro allI impI)
      fix m assume m: "m < Suc n"
      show "bq_queue ((drain_pass fb flags ^^ m) w) \<noteq> []"
      proof (cases m)
        case 0
        with False show ?thesis by simp
      next
        case (Suc k)
        with m n(2) show ?thesis by (simp add: funpow_swap1)
      qed
    qed
    with n show ?thesis
      by (intro exI [of _ "Suc n"]) (simp add: funpow_swap1)
  qed
qed


text \<open>
  C9: \<^verbatim>\<open>begin\<close> adds one to the depth; \<^verbatim>\<open>end\<close> takes one off and runs \<^verbatim>\<open>process\<close> only when
  the depth is then zero; \<^verbatim>\<open>inline(fn)\<close> is \<^verbatim>\<open>begin\<close>, \<^verbatim>\<open>fn\<close>, \<^verbatim>\<open>end\<close>. One pass of
  \<^verbatim>\<open>process\<close> starts from the emptied queue and flushes the entries of the snapshot, each
  once and in order, whatever the callbacks add meanwhile; what they add is in the queue
  when the pass ends and is flushed by the next pass. \<^verbatim>\<open>process\<close> returns exactly when
  some pass leaves the queue empty, with the world after the first such pass.
\<close>

theorem C9_batch_queue:
  "BatchQueue_begin w = w\<lparr>bq_depth := bq_depth w + 1\<rparr>
   \<and> BatchQueue_end K fb fl w =
        (if bq_depth w - 1 = 0
         then BatchQueue_process fb (case fl of None \<Rightarrow> LifecycleFlags_none K | Some f \<Rightarrow> f)
                (w\<lparr>bq_depth := bq_depth w - 1\<rparr>)
         else Some (w\<lparr>bq_depth := bq_depth w - 1\<rparr>))
   \<and> BatchQueue_inline K fb fn fl w = BatchQueue_end K fb fl (fn (BatchQueue_begin w))
   \<and> drain_pass fb flags w = fold (\<lambda>r. fb r flags) (bq_queue w) (w\<lparr>bq_queue := []\<rparr>)
   \<and> (bq_queue w \<noteq> [] \<longrightarrow>
        BatchQueue_process fb flags w = BatchQueue_process fb flags (drain_pass fb flags w))
   \<and> (bq_queue w = [] \<longrightarrow> BatchQueue_process fb flags w = Some w)
   \<and> (BatchQueue_process fb flags w = Some w' \<longleftrightarrow>
        (\<exists>n. bq_queue ((drain_pass fb flags ^^ n) w) = []
           \<and> (\<forall>m<n. bq_queue ((drain_pass fb flags ^^ m) w) \<noteq> [])
           \<and> w' = (drain_pass fb flags ^^ n) w))"
proof -
  have 1: "BatchQueue_begin w = w\<lparr>bq_depth := bq_depth w + 1\<rparr>"
    by (simp add: BatchQueue_begin_def)
  have 2: "BatchQueue_end K fb fl w =
        (if bq_depth w - 1 = 0
         then BatchQueue_process fb (case fl of None \<Rightarrow> LifecycleFlags_none K | Some f \<Rightarrow> f)
                (w\<lparr>bq_depth := bq_depth w - 1\<rparr>)
         else Some (w\<lparr>bq_depth := bq_depth w - 1\<rparr>))"
    by (simp add: BatchQueue_end_def Let_def)
  have 3: "BatchQueue_inline K fb fn fl w = BatchQueue_end K fb fl (fn (BatchQueue_begin w))"
    by (simp add: BatchQueue_inline_def)
  have 4: "BatchQueue_process fb flags w = Some w' \<longleftrightarrow>
        (\<exists>n. bq_queue ((drain_pass fb flags ^^ n) w) = []
           \<and> (\<forall>m<n. bq_queue ((drain_pass fb flags ^^ m) w) \<noteq> [])
           \<and> w' = (drain_pass fb flags ^^ n) w)"
    using process_returns_after_passes [of fb flags w w'] process_after_passes [where fb = fb and flags = flags and w = w]
    by blast
  from 1 2 3 4 drain_pass_fold [of fb flags w] process_step [of w fb flags] process_empty [of w fb flags]
  show ?thesis by blast
qed

lemma example_passes:
  "drain_pass example_flushBatch 0 (example_queue\<lparr>bq_depth := 0\<rparr>)
     = \<lparr>bq_queue = [2], bq_depth = 0, bq_ext = [1, 3]\<rparr>"
  "drain_pass example_flushBatch 0 \<lparr>bq_queue = [2], bq_depth = 0, bq_ext = [1, 3 :: nat]\<rparr>
     = \<lparr>bq_queue = [], bq_depth = 0, bq_ext = [1, 3, 2]\<rparr>"
  by (simp_all add: drain_pass_fold example_flushBatch_def example_queue_def)

theorem C9_witness:
  "bq_depth example_queue - 1 = 0
   \<and> bq_queue (example_queue\<lparr>bq_depth := 0\<rparr>) = [1, 3]
   \<and> bq_queue (drain_pass example_flushBatch 0 (example_queue\<lparr>bq_depth := 0\<rparr>)) = [2]
   \<and> bq_queue ((drain_pass example_flushBatch 0 ^^ 2) (example_queue\<lparr>bq_depth := 0\<rparr>)) = []
   \<and> BatchQueue_end example_consts example_flushBatch None example_queue
       = Some \<lparr>bq_queue = [], bq_depth = 0, bq_ext = [1, 3, 2]\<rparr>
   \<and> BatchQueue_end example_consts example_flushBatch None (BatchQueue_begin example_queue)
       = Some \<lparr>bq_queue = [1, 3], bq_depth = 1, bq_ext = []\<rparr>"
proof -
  let ?w = "example_queue\<lparr>bq_depth := 0\<rparr>"
  let ?p = "drain_pass example_flushBatch 0"
  have d: "bq_depth example_queue - 1 = 0" "example_queue\<lparr>bq_depth := bq_depth example_queue - 1\<rparr> = ?w"
    "LifecycleFlags_none example_consts = 0"
    by (simp_all add: example_queue_def example_consts_def)
  have p2: "(?p ^^ 2) ?w = \<lparr>bq_queue = [], bq_depth = 0, bq_ext = [1, 3, 2]\<rparr>"
  proof -
    have "(?p ^^ 2) ?w = ?p (?p ?w)"
      by (simp add: numeral_2_eq_2)
    then show ?thesis
      by (simp only: example_passes)
  qed
  have q: "bq_queue ?w = [1, 3]" "bq_queue (?p ?w) = [2]" "bq_queue ((?p ^^ 2) ?w) = []"
    by (simp_all add: p2 example_passes) (simp add: example_queue_def)
  have all: "\<forall>m<2. bq_queue ((?p ^^ m) ?w) \<noteq> []"
  proof (intro allI impI)
    fix m :: nat assume "m < 2"
    then have "m = 0 \<or> m = 1" by auto
    then show "bq_queue ((?p ^^ m) ?w) \<noteq> []"
      using q by auto
  qed
  note c9 = C9_batch_queue [where w = ?w and fb = example_flushBatch and flags = 0
      and w' = "(?p ^^ 2) ?w" and K = example_consts and fl = None and fn = id]
  have pr: "BatchQueue_process example_flushBatch 0 ?w = Some ((?p ^^ 2) ?w)"
    using c9 q(3) all by blast
  note e1 = C9_batch_queue [where w = example_queue and fb = example_flushBatch and flags = 0
      and K = example_consts and fl = None and fn = id and w' = example_queue]
  have end1: "BatchQueue_end example_consts example_flushBatch None example_queue
       = Some \<lparr>bq_queue = [], bq_depth = 0, bq_ext = [1, 3, 2]\<rparr>"
    using e1 d pr p2 by simp
  note e2 = C9_batch_queue [where w = "BatchQueue_begin example_queue" and fb = example_flushBatch
      and flags = 0 and K = example_consts and fl = None and fn = id and w' = example_queue]
  have b: "BatchQueue_begin example_queue = \<lparr>bq_queue = [1, 3], bq_depth = 2, bq_ext = []\<rparr>"
    by (simp add: BatchQueue_begin_def example_queue_def)
  have end2: "BatchQueue_end example_consts example_flushBatch None (BatchQueue_begin example_queue)
       = Some \<lparr>bq_queue = [1, 3], bq_depth = 1, bq_ext = []\<rparr>"
    using e2 by (simp add: b)
  from d q end1 end2 show ?thesis by simp
qed


text \<open>
  Convergence is not guaranteed: with a callback that puts its batchable back in the queue,
  every pass ends with the queue it started from, and \<^verbatim>\<open>process\<close> never returns.
\<close>

lemma process_resubmit_never_returns:
  "BatchQueue_process example_resubmit 0 \<lparr>bq_queue = [5], bq_depth = 0, bq_ext = ()\<rparr> = None"
proof -
  let ?w = "\<lparr>bq_queue = [5], bq_depth = 0, bq_ext = ()\<rparr> :: unit bq_world"
  have fp: "drain_pass example_resubmit 0 ?w = ?w"
    by (simp add: drain_pass_fold example_resubmit_def)
  have iter: "(drain_pass example_resubmit 0 ^^ n) ?w = ?w" for n
    by (induction n) (simp_all add: fp)
  have "BatchQueue_process example_resubmit 0 ?w \<noteq> Some w'" for w'
  proof
    assume "BatchQueue_process example_resubmit 0 ?w = Some w'"
    from process_returns_after_passes [OF this]
    obtain n where "bq_queue ((drain_pass example_resubmit 0 ^^ n) ?w) = []"
      by blast
    then show False
      by (simp add: iter)
  qed
  then show ?thesis
    by (cases "BatchQueue_process example_resubmit 0 ?w") auto
qed


section \<open>The subscriber of a two-way binding\<close>

text \<open>
  C10: \<^verbatim>\<open>BindingTargetSubscriber.handleChange\<close> evaluates the source expression of its binding,
  unconnected, and calls \<^verbatim>\<open>updateSource\<close> with the new target value exactly when that value
  differs from the result by \<^verbatim>\<open>!==\<close>; when the two are strictly equal the store is left as
  it was and \<^verbatim>\<open>updateSource\<close> is not called.
\<close>

theorem C10_updateSource_iff_strictly_different:
  "(if strict_eq v (fst (evaluate (tw_sourceExpression b) flags (tw_store w) (tw_scope b) (tw_hostScope b)))
    then tw_store (BTS_handleChange b v old flags w) = tw_store w
       \<and> tw_trace (BTS_handleChange b v old flags w) = tw_trace w @ [Evaluate False]
    else tw_store (BTS_handleChange b v old flags w) = tw_updateSource b v flags (tw_store w)
       \<and> tw_trace (BTS_handleChange b v old flags w)
           = tw_trace w @ [Evaluate False, UpdateSource v flags])
   \<and> (UpdateSource v flags \<in> set (drop (length (tw_trace w)) (tw_trace (BTS_handleChange b v old flags w)))
        \<longleftrightarrow> \<not> strict_eq v (fst (evaluate (tw_sourceExpression b) flags (tw_store w) (tw_scope b)
                                  (tw_hostScope b))))"
  by (simp add: BTS_handleChange_def updateSource_def Let_def split: prod.splits)

theorem C10_witness:
  "strict_eq (JStr ''X'')
     (fst (evaluate (tw_sourceExpression example_two_way) 0 (example_store (JStr ''X'') (JStr ''Y''))
            (tw_scope example_two_way) (tw_hostScope example_two_way)))
   \<and> BTS_handleChange example_two_way (JStr ''X'') (JStr ''W'') 0
        \<lparr>tw_store = example_store (JStr ''X'') (JStr ''Y''), tw_trace = []\<rparr>
      = \<lparr>tw_store = example_store (JStr ''X'') (JStr ''Y''), tw_trace = [Evaluate False]\<rparr>
   \<and> \<not> strict_eq (JStr ''Z'')
     (fst (evaluate (tw_sourceExpression example_two_way) 0 (example_store (JStr ''X'') (JStr ''Y''))
            (tw_scope example_two_way) (tw_hostScope example_two_way)))
   \<and> tw_store (BTS_handleChange example_two_way (JStr ''Z'') (JStr ''X'') 0
        \<lparr>tw_store = example_store (JStr ''X'') (JStr ''Y''), tw_trace = []\<rparr>) 7 ''a'' = JStr ''Z''
   \<and> tw_trace (BTS_handleChange example_two_way (JStr ''Z'') (JStr ''X'') 0
        \<lparr>tw_store = example_store (JStr ''X'') (JStr ''Y''), tw_trace = []\<rparr>)
      = [Evaluate False, UpdateSource (JStr ''Z'') 0]
   \<and> \<not> strict_eq JNaN JNaN"
proof -
  let ?w = "\<lparr>tw_store = example_store (JStr ''X'') (JStr ''Y''), tw_trace = []\<rparr>"
  have e: "fst (evaluate (tw_sourceExpression example_two_way) 0 (tw_store ?w)
            (tw_scope example_two_way) (tw_hostScope example_two_way)) = JStr ''X''"
    by (simp add: example_two_way_def access_scope_def example_store_def)
  note x = C10_updateSource_iff_strictly_different
      [where v = "JStr ''X''" and b = example_two_way and flags = 0 and w = ?w and old = "JStr ''W''"]
  note z = C10_updateSource_iff_strictly_different
      [where v = "JStr ''Z''" and b = example_two_way and flags = 0 and w = ?w and old = "JStr ''X''"]
  have 1: "BTS_handleChange example_two_way (JStr ''X'') (JStr ''W'') 0 ?w
      = \<lparr>tw_store = example_store (JStr ''X'') (JStr ''Y''), tw_trace = [Evaluate False]\<rparr>"
    using x e by (cases "BTS_handleChange example_two_way (JStr ''X'') (JStr ''W'') 0 ?w") simp
  have 2: "tw_store (BTS_handleChange example_two_way (JStr ''Z'') (JStr ''X'') 0 ?w) 7 ''a'' = JStr ''Z''"
    "tw_trace (BTS_handleChange example_two_way (JStr ''Z'') (JStr ''X'') 0 ?w)
      = [Evaluate False, UpdateSource (JStr ''Z'') 0]"
    using z e by (simp_all add: example_two_way_def)
  from e 1 2 show ?thesis by simp
qed


section \<open>The task discipline of the interpolation binding\<close>

lemma in_pending_tasks:
  "h \<in> set (pending_tasks q) \<longleftrightarrow> h < length q \<and> task_status (q ! h) = Pending"
  by (auto simp: pending_tasks_def)

lemma distinct_pending_tasks: "distinct (pending_tasks q)"
  by (simp add: pending_tasks_def)

lemma ib_inv_iff:
  "ib_inv w \<longleftrightarrow>
     handle_ok (ib_task (iw_binding w)) (iw_taskQueue w)
     \<and> (\<forall>h. h < length (iw_taskQueue w) \<and> task_status (iw_taskQueue w ! h) = Pending
            \<longrightarrow> ib_task (iw_binding w) = Some h)"
  by (auto simp: ib_inv_def list_all_iff in_pending_tasks)

text \<open>Under the discipline at most one task is pending.\<close>

lemma ib_inv_at_most_one_pending:
  assumes "ib_inv w"
  shows "length (pending_tasks (iw_taskQueue w)) \<le> 1"
proof (cases "ib_task (iw_binding w)")
  case None
  with assms have "set (pending_tasks (iw_taskQueue w)) = {}"
    by (simp add: ib_inv_def list_all_iff)
  then show ?thesis by simp
next
  case (Some h)
  with assms have "set (pending_tasks (iw_taskQueue w)) \<subseteq> {h}"
    by (auto simp: ib_inv_def list_all_iff)
  then have "card (set (pending_tasks (iw_taskQueue w))) \<le> card {h}"
    by (intro card_mono) simp_all
  then show ?thesis
    by (simp add: distinct_card [OF distinct_pending_tasks])
qed

text \<open>A task that is not pending, canceled or already run, does nothing when its turn comes.\<close>

lemma IB_runTask_not_pending:
  "task_status (iw_taskQueue w ! h) \<noteq> Pending \<Longrightarrow> IB_runTask h w = w"
  by (simp add: IB_runTask_def Let_def)

lemma cancel_status:
  "k < length q \<Longrightarrow>
   task_status (cancel h q ! k) = (if k = h \<and> task_status (q ! k) = Pending then Canceled else task_status (q ! k))"
  by (auto simp: cancel_def)

lemma cancel_opt_status:
  "k < length q \<Longrightarrow>
   task_status (cancel_opt t q ! k)
     = (if t = Some k \<and> task_status (q ! k) = Pending then Canceled else task_status (q ! k))"
  by (cases t) (auto simp: cancel_opt_def cancel_status)

lemma ib_inv_IB_updateTarget:
  assumes "ib_inv w"
  shows "ib_inv (IB_updateTarget K v flags w)"
proof (cases "IB_shouldQueueFlush K flags (iw_binding w)")
  case False
  then show ?thesis
    using assms by (simp add: IB_updateTarget_immediate ib_inv_iff)
next
  case True
  let ?q = "iw_taskQueue w"
  let ?new = "\<lparr>task_status = Pending, task_work = (IB_result (iw_binding w), flags),
               task_options = queueTaskOptions\<rparr>"
  have old: "\<And>h. h < length ?q \<Longrightarrow> task_status (cancel_opt (ib_task (iw_binding w)) (?q @ [?new]) ! h) \<noteq> Pending"
  proof -
    fix h assume h: "h < length ?q"
    show "task_status (cancel_opt (ib_task (iw_binding w)) (?q @ [?new]) ! h) \<noteq> Pending"
    proof (cases "task_status (?q ! h) = Pending")
      case True
      with assms h have "ib_task (iw_binding w) = Some h"
        by (simp add: ib_inv_iff)
      with h True show ?thesis
        by (simp add: cancel_opt_status nth_append)
    next
      case False
      with h show ?thesis
        by (simp add: cancel_opt_status nth_append)
    qed
  qed
  show ?thesis
    unfolding ib_inv_iff IB_updateTarget_deferred [OF True]
  proof (intro conjI allI impI)
    show "handle_ok (ib_task (iw_binding (w\<lparr>iw_binding := (iw_binding w)\<lparr>ib_task := Some (length ?q)\<rparr>,
             iw_taskQueue := cancel_opt (ib_task (iw_binding w)) (?q @ [?new])\<rparr>)))
           (iw_taskQueue (w\<lparr>iw_binding := (iw_binding w)\<lparr>ib_task := Some (length ?q)\<rparr>,
             iw_taskQueue := cancel_opt (ib_task (iw_binding w)) (?q @ [?new])\<rparr>))"
      by (simp add: handle_ok_def)
  next
    fix h
    assume "h < length (iw_taskQueue (w\<lparr>iw_binding := (iw_binding w)\<lparr>ib_task := Some (length ?q)\<rparr>,
             iw_taskQueue := cancel_opt (ib_task (iw_binding w)) (?q @ [?new])\<rparr>))
        \<and> task_status (iw_taskQueue (w\<lparr>iw_binding := (iw_binding w)\<lparr>ib_task := Some (length ?q)\<rparr>,
             iw_taskQueue := cancel_opt (ib_task (iw_binding w)) (?q @ [?new])\<rparr>) ! h) = Pending"
    then have "h < Suc (length ?q)"
      and "task_status (cancel_opt (ib_task (iw_binding w)) (?q @ [?new]) ! h) = Pending"
      by simp_all
    with old [of h] have "h = length ?q"
      by (cases "h < length ?q") auto
    then show "ib_task (iw_binding (w\<lparr>iw_binding := (iw_binding w)\<lparr>ib_task := Some (length ?q)\<rparr>,
             iw_taskQueue := cancel_opt (ib_task (iw_binding w)) (?q @ [?new])\<rparr>)) = Some h"
      by simp
  qed
qed

lemma ib_inv_frame:
  assumes "ib_inv w" "iw_taskQueue w' = iw_taskQueue w" "ib_task (iw_binding w') = ib_task (iw_binding w)"
  shows "ib_inv w'"
  using assms by (simp add: ib_inv_iff)

lemma ib_inv_CB_handleChange:
  assumes "ib_inv w"
  shows "ib_inv (CB_handleChange K i nv ov flags w)"
proof -
  have f: "\<And>b evs. ib_inv (set_part i b (add_trace evs w))"
    by (rule ib_inv_frame [OF assms]) (simp_all add: set_part_def add_trace_def)
  show ?thesis
  proof (cases "i < length (partBindings (iw_binding w)) \<and> cb_isBound (partBindings (iw_binding w) ! i)")
    case False
    then show ?thesis
      using assms by (auto simp: CB_handleChange_def)
  next
    case True
    obtain v b1 evs where h: "handleChange_newValue K (iw_store w) nv flags (partBindings (iw_binding w) ! i) = (v, b1, evs)"
      by (cases "handleChange_newValue K (iw_store w) nv flags (partBindings (iw_binding w) ! i)") auto
    show ?thesis
    proof (cases "loose_eq (StringToNumber K) v (cb_value b1)")
      case eq: True
      with True h show ?thesis
        by (simp add: CB_handleChange_def Let_def f)
    next
      case ne: False
      with True h show ?thesis
        by (simp add: CB_handleChange_def Let_def f ib_inv_IB_updateTarget)
    qed
  qed
qed

lemma ib_inv_IB_runTask:
  assumes "ib_inv w"
  shows "ib_inv (IB_runTask h w)"
proof (cases "h < length (iw_taskQueue w) \<and> task_status (iw_taskQueue w ! h) = Pending")
  case False
  then show ?thesis
    using assms by (auto simp: IB_runTask_def Let_def)
next
  case True
  with assms have t: "ib_task (iw_binding w) = Some h"
    by (simp add: ib_inv_iff)
  have only: "\<And>k. k < length (iw_taskQueue w) \<Longrightarrow> task_status (iw_taskQueue w ! k) = Pending \<Longrightarrow> k = h"
    using assms t by (simp add: ib_inv_iff)
  have run: "IB_runTask h w =
      w\<lparr>iw_taskQueue := (iw_taskQueue w)[h := (iw_taskQueue w ! h)\<lparr>task_status := Run\<rparr>],
        iw_binding := (iw_binding w)\<lparr>ib_task := None\<rparr>,
        iw_target := fst (task_work (iw_taskQueue w ! h)),
        iw_trace := iw_trace w @ [SetValue (fst (task_work (iw_taskQueue w ! h)))
                                    (snd (task_work (iw_taskQueue w ! h)))]\<rparr>"
    using True by (simp add: IB_runTask_def IB_task_work_def setValue_def Let_def)
  show ?thesis
    unfolding ib_inv_iff run
  proof (intro conjI allI impI)
    fix k
    assume "k < length (iw_taskQueue (w\<lparr>iw_taskQueue := (iw_taskQueue w)[h := (iw_taskQueue w ! h)\<lparr>task_status := Run\<rparr>],
        iw_binding := (iw_binding w)\<lparr>ib_task := None\<rparr>,
        iw_target := fst (task_work (iw_taskQueue w ! h)),
        iw_trace := iw_trace w @ [SetValue (fst (task_work (iw_taskQueue w ! h)))
                                    (snd (task_work (iw_taskQueue w ! h)))]\<rparr>))
      \<and> task_status (iw_taskQueue (w\<lparr>iw_taskQueue := (iw_taskQueue w)[h := (iw_taskQueue w ! h)\<lparr>task_status := Run\<rparr>],
        iw_binding := (iw_binding w)\<lparr>ib_task := None\<rparr>,
        iw_target := fst (task_work (iw_taskQueue w ! h)),
        iw_trace := iw_trace w @ [SetValue (fst (task_work (iw_taskQueue w ! h)))
                                    (snd (task_work (iw_taskQueue w ! h)))]\<rparr>) ! k) = Pending"
    then have k: "k < length (iw_taskQueue w)"
      and s: "task_status ((iw_taskQueue w)[h := (iw_taskQueue w ! h)\<lparr>task_status := Run\<rparr>] ! k) = Pending"
      by simp_all
    from k s have "k \<noteq> h"
      by (auto simp: nth_list_update)
    moreover from k s this have "task_status (iw_taskQueue w ! k) = Pending"
      by (simp add: nth_list_update)
    ultimately have False
      using only [OF k] by simp
    then show "ib_task (iw_binding (w\<lparr>iw_taskQueue := (iw_taskQueue w)[h := (iw_taskQueue w ! h)\<lparr>task_status := Run\<rparr>],
        iw_binding := (iw_binding w)\<lparr>ib_task := None\<rparr>,
        iw_target := fst (task_work (iw_taskQueue w ! h)),
        iw_trace := iw_trace w @ [SetValue (fst (task_work (iw_taskQueue w ! h)))
                                    (snd (task_work (iw_taskQueue w ! h)))]\<rparr>)) = Some k" ..
  qed (simp add: handle_ok_def)
qed

lemma ib_inv_IB_flush: "ib_inv w \<Longrightarrow> ib_inv (IB_flush w)"
proof -
  have "\<And>w. ib_inv w \<Longrightarrow> ib_inv (fold IB_runTask hs w)" for hs
    by (induction hs) (simp_all add: ib_inv_IB_runTask)
  then show "ib_inv w \<Longrightarrow> ib_inv (IB_flush w)"
    by (simp add: IB_flush_def)
qed


lemma fold_IB_runTask_none_pending:
  "\<forall>h \<in> set hs. task_status (iw_taskQueue w ! h) \<noteq> Pending \<Longrightarrow> fold IB_runTask hs w = w"
  by (induction hs) (simp_all add: IB_runTask_not_pending)

lemma IB_flush_none_pending:
  assumes "pending_tasks (iw_taskQueue w) = []"
  shows "IB_flush w = w"
proof -
  have "\<forall>h \<in> set [0..<length (iw_taskQueue w)]. task_status (iw_taskQueue w ! h) \<noteq> Pending"
    using assms by (auto simp: pending_tasks_def filter_empty_conv)
  then show ?thesis
    unfolding IB_flush_def by (rule fold_IB_runTask_none_pending)
qed

lemma trace_IB_runTask:
  "iw_trace (IB_runTask h w) =
     iw_trace w @ (if h < length (iw_taskQueue w) \<and> task_status (iw_taskQueue w ! h) = Pending
                   then [SetValue (fst (task_work (iw_taskQueue w ! h))) (snd (task_work (iw_taskQueue w ! h)))]
                   else [])"
  by (simp add: IB_runTask_def IB_task_work_def setValue_def Let_def)

lemma trace_fold_IB_runTask:
  assumes "distinct hs"
  shows "iw_trace (fold IB_runTask hs w) =
     iw_trace w @ map (\<lambda>h. SetValue (fst (task_work (iw_taskQueue w ! h))) (snd (task_work (iw_taskQueue w ! h))))
       (filter (\<lambda>h. h < length (iw_taskQueue w) \<and> task_status (iw_taskQueue w ! h) = Pending) hs)"
  using assms
proof (induction hs arbitrary: w)
  case Nil
  then show ?case by simp
next
  case (Cons x hs)
  let ?w = "IB_runTask x w"
  have same: "\<And>h. h \<in> set hs \<Longrightarrow> iw_taskQueue ?w ! h = iw_taskQueue w ! h"
    using Cons.prems by (intro queue_nth_IB_runTask) auto
  have f: "filter (\<lambda>h. h < length (iw_taskQueue ?w) \<and> task_status (iw_taskQueue ?w ! h) = Pending) hs
         = filter (\<lambda>h. h < length (iw_taskQueue w) \<and> task_status (iw_taskQueue w ! h) = Pending) hs"
    by (rule filter_cong) (simp_all add: same)
  have m: "map (\<lambda>h. SetValue (fst (task_work (iw_taskQueue ?w ! h))) (snd (task_work (iw_taskQueue ?w ! h))))
             (filter (\<lambda>h. h < length (iw_taskQueue w) \<and> task_status (iw_taskQueue w ! h) = Pending) hs)
         = map (\<lambda>h. SetValue (fst (task_work (iw_taskQueue w ! h))) (snd (task_work (iw_taskQueue w ! h))))
             (filter (\<lambda>h. h < length (iw_taskQueue w) \<and> task_status (iw_taskQueue w ! h) = Pending) hs)"
    by (rule map_cong) (simp_all add: same)
  from Cons.prems have "distinct hs" by simp
  from Cons.IH [OF this, of ?w]
  have "iw_trace (fold IB_runTask hs ?w) =
     iw_trace ?w @ map (\<lambda>h. SetValue (fst (task_work (iw_taskQueue w ! h))) (snd (task_work (iw_taskQueue w ! h))))
       (filter (\<lambda>h. h < length (iw_taskQueue w) \<and> task_status (iw_taskQueue w ! h) = Pending) hs)"
    by (simp only: f m)
  then show ?case
    by (simp add: trace_IB_runTask)
qed

text \<open>A flush writes the results of the pending tasks, in the order of the queue, and nothing else.\<close>

lemma trace_IB_flush:
  "iw_trace (IB_flush w) =
     iw_trace w @ map (\<lambda>h. SetValue (fst (task_work (iw_taskQueue w ! h))) (snd (task_work (iw_taskQueue w ! h))))
       (pending_tasks (iw_taskQueue w))"
proof -
  have "filter (\<lambda>h. h < length (iw_taskQueue w) \<and> task_status (iw_taskQueue w ! h) = Pending)
          [0..<length (iw_taskQueue w)] = pending_tasks (iw_taskQueue w)"
    unfolding pending_tasks_def by (rule filter_cong) simp_all
  then show ?thesis
    using trace_fold_IB_runTask [of "[0..<length (iw_taskQueue w)]" w]
    by (simp add: IB_flush_def)
qed

lemma distinct_singleton: "distinct xs \<Longrightarrow> set xs = {x} \<Longrightarrow> xs = [x]"
proof (cases xs)
  case Nil
  assume "set xs = {x}"
  with Nil show ?thesis by simp
next
  case (Cons a ys)
  assume d: "distinct xs" and s: "set xs = {x}"
  from s Cons have a: "a = x" by auto
  have "ys = []"
  proof (cases ys)
    case Nil
    then show ?thesis .
  next
    case (Cons b zs)
    with s \<open>xs = a # ys\<close> have "b = x" by auto
    with d a Cons \<open>xs = a # ys\<close> show ?thesis by simp
  qed
  with a Cons show ?thesis by simp
qed

lemma pending_after_deferred:
  assumes inv: "ib_inv w" and q: "IB_shouldQueueFlush K flags (iw_binding w)"
  shows "pending_tasks (iw_taskQueue (IB_updateTarget K v flags w)) = [length (iw_taskQueue w)]"
proof -
  let ?w = "IB_updateTarget K v flags w"
  have inv': "ib_inv ?w"
    by (rule ib_inv_IB_updateTarget [OF inv])
  have t: "ib_task (iw_binding ?w) = Some (length (iw_taskQueue w))"
    and l: "length (iw_taskQueue ?w) = Suc (length (iw_taskQueue w))"
    by (simp_all add: IB_updateTarget_deferred [OF q])
  have ok: "handle_ok (ib_task (iw_binding w)) (iw_taskQueue w)"
    using inv by (simp add: ib_inv_def)
  have "last (iw_taskQueue ?w) = \<lparr>task_status = Pending, task_work = (IB_result (iw_binding w), flags),
                             task_options = queueTaskOptions\<rparr>"
    by (simp add: IB_updateTarget_deferred [OF q] last_cancel_opt_snoc [OF ok])
  moreover have "last (iw_taskQueue ?w) = iw_taskQueue ?w ! length (iw_taskQueue w)"
    using l by (simp add: last_conv_nth flip: length_0_conv)
  ultimately have p: "task_status (iw_taskQueue ?w ! length (iw_taskQueue w)) = Pending"
    by simp
  have "set (pending_tasks (iw_taskQueue ?w)) = {length (iw_taskQueue w)}"
  proof (intro equalityI subsetI)
    fix h assume "h \<in> set (pending_tasks (iw_taskQueue ?w))"
    then have "ib_task (iw_binding ?w) = Some h"
      using inv' by (simp add: ib_inv_def list_all_iff)
    with t show "h \<in> {length (iw_taskQueue w)}" by simp
  next
    fix h assume "h \<in> {length (iw_taskQueue w)}"
    with p l show "h \<in> set (pending_tasks (iw_taskQueue ?w))"
      by (simp add: in_pending_tasks)
  qed
  then show ?thesis
    by (rule distinct_singleton [OF distinct_pending_tasks])
qed

text \<open>
  For the interpolation binding the discipline holds: under it, a deferred
  \<^verbatim>\<open>updateTarget\<close> leaves exactly its own task pending, whatever was scheduled before, and
  the flush that follows writes its result and nothing else.
\<close>

lemma IB_only_latest_write_reaches_target:
  assumes inv: "ib_inv w" and q: "IB_shouldQueueFlush K flags (iw_binding w)"
  shows "iw_trace (IB_flush (IB_updateTarget K v flags w))
           = iw_trace w @ [SetValue (IB_result (iw_binding w)) flags]
       \<and> iw_target (IB_flush (IB_updateTarget K v flags w)) = IB_result (iw_binding w)
       \<and> pending_tasks (iw_taskQueue (IB_flush (IB_updateTarget K v flags w))) = []"
proof -
  let ?w = "IB_updateTarget K v flags w"
  note p = pending_after_deferred [OF inv q, of v]
  have work: "task_work (iw_taskQueue ?w ! length (iw_taskQueue w)) = (IB_result (iw_binding w), flags)"
    by (simp add: IB_updateTarget_deferred [OF q])
  have tr: "iw_trace ?w = iw_trace w"
    by (simp add: IB_updateTarget_deferred [OF q])
  have 1: "iw_trace (IB_flush ?w) = iw_trace w @ [SetValue (IB_result (iw_binding w)) flags]"
    by (simp add: trace_IB_flush p work tr)
  have ne: "iw_taskQueue ?w \<noteq> []"
    by (simp add: IB_updateTarget_deferred [OF q] flip: length_0_conv)
  have ok: "handle_ok (ib_task (iw_binding w)) (iw_taskQueue w)"
    using inv by (simp add: ib_inv_def)
  have l: "last (iw_taskQueue ?w) = \<lparr>task_status = Pending, task_work = (IB_result (iw_binding w), flags),
                             task_options = queueTaskOptions\<rparr>"
    by (simp add: IB_updateTarget_deferred [OF q] last_cancel_opt_snoc [OF ok])
  have 2: "iw_target (IB_flush ?w) = IB_result (iw_binding w)"
    using IB_flush_last_pending [OF ne] l by simp
  have inv2: "ib_inv (IB_flush ?w)"
    by (intro ib_inv_IB_flush ib_inv_IB_updateTarget inv)
  have "ib_task (iw_binding (IB_flush ?w)) = None"
  proof -
    have "IB_flush ?w = IB_runTask (length (iw_taskQueue w)) (fold IB_runTask [0..<length (iw_taskQueue w)] ?w)"
      by (simp add: IB_flush_def IB_updateTarget_deferred [OF q])
    moreover have "iw_taskQueue (fold IB_runTask [0..<length (iw_taskQueue w)] ?w) ! length (iw_taskQueue w)
                     = iw_taskQueue ?w ! length (iw_taskQueue w)"
      by (rule queue_nth_fold_IB_runTask) simp
    moreover have "task_status (iw_taskQueue ?w ! length (iw_taskQueue w)) = Pending"
      using p in_pending_tasks [of "length (iw_taskQueue w)" "iw_taskQueue ?w"] by simp
    moreover have "length (iw_taskQueue w) < length (iw_taskQueue ?w)"
      by (simp add: IB_updateTarget_deferred [OF q])
    ultimately show ?thesis
      by (simp add: IB_runTask_def IB_task_work_def setValue_def Let_def)
  qed
  with inv2 have 3: "pending_tasks (iw_taskQueue (IB_flush ?w)) = []"
    by (cases "pending_tasks (iw_taskQueue (IB_flush ?w))") (simp_all add: ib_inv_def)
  from 1 2 3 show ?thesis by simp
qed


lemma CB_handleChange_unbound:
  "\<not> cb_isBound (partBindings (iw_binding w) ! i) \<Longrightarrow> CB_handleChange K i nv ov flags w = w"
  by (simp add: CB_handleChange_def)

lemma CB2_handleChange_unbound:
  "\<not> cb_isBound (cw_binding c) \<Longrightarrow> CB2_handleChange K nv ov flags c = c"
  by (simp add: CB2_handleChange_def)

lemma part_CB_unbind_other:
  "j \<noteq> i \<Longrightarrow> partBindings (iw_binding (CB_unbind j flags w)) ! i = partBindings (iw_binding w) ! i"
  by (simp add: CB_unbind_def set_part_def add_trace_def Let_def split: prod.splits)

lemma part_CB_unbind_stays_unbound:
  assumes "\<not> cb_isBound (partBindings (iw_binding w) ! i)"
  shows "\<not> cb_isBound (partBindings (iw_binding (CB_unbind j flags w)) ! i)"
proof (cases "j = i")
  case True
  with assms show ?thesis
    by (simp add: CB_unbind_def)
next
  case False
  with assms show ?thesis
    by (simp add: part_CB_unbind_other)
qed

lemma parts_unbound_fold_CB_unbind:
  "i < n \<Longrightarrow> n \<le> length (partBindings (iw_binding w)) \<Longrightarrow>
   \<not> cb_isBound (partBindings (iw_binding (fold (\<lambda>i. CB_unbind i flags) [0..<n] w)) ! i)"
proof (induction n)
  case 0
  then show ?case by simp
next
  case (Suc n)
  let ?w = "fold (\<lambda>i. CB_unbind i flags) [0..<n] w"
  show ?case
  proof (cases "i = n")
    case True
    have "n < length (partBindings (iw_binding ?w))"
      using Suc.prems by simp
    then have "\<not> cb_isBound (partBindings (iw_binding (CB_unbind n flags ?w)) ! n)"
      by (rule part_CB_unbind)
    with True show ?thesis by simp
  next
    case False
    with Suc have "\<not> cb_isBound (partBindings (iw_binding ?w) ! i)" by simp
    then have "\<not> cb_isBound (partBindings (iw_binding (CB_unbind n flags ?w)) ! i)"
      by (rule part_CB_unbind_stays_unbound)
    then show ?thesis by simp
  qed
qed

lemma parts_unbound_IB_unbind:
  assumes "ib_isBound (iw_binding w)" "i < length (partBindings (iw_binding w))"
  shows "\<not> cb_isBound (partBindings (iw_binding (IB_unbind flags w)) ! i)"
proof -
  let ?w1 = "w\<lparr>iw_binding := (iw_binding w)\<lparr>ib_isBound := False, ib_scope := None\<rparr>\<rparr>"
  have "\<not> cb_isBound (partBindings (iw_binding
          (fold (\<lambda>i. CB_unbind i flags) [0..<length (partBindings (iw_binding ?w1))] ?w1)) ! i)"
    using assms(2) by (intro parts_unbound_fold_CB_unbind) simp_all
  then show ?thesis
    using assms(1) by (simp add: IB_unbind_def Let_def)
qed

lemma IB_unbind_queue:
  assumes "ib_isBound (iw_binding w)"
  shows "iw_taskQueue (IB_unbind flags w) = cancel_opt (ib_task (iw_binding w)) (iw_taskQueue w)"
    and "ib_task (iw_binding (IB_unbind flags w)) = None"
  using assms by (simp_all add: IB_unbind_def Let_def)

lemma IB_unbind_no_pending:
  assumes inv: "ib_inv w" and bound: "ib_isBound (iw_binding w)"
  shows "pending_tasks (iw_taskQueue (IB_unbind flags w)) = []"
proof -
  have "\<And>h. h \<in> set (pending_tasks (cancel_opt (ib_task (iw_binding w)) (iw_taskQueue w))) \<Longrightarrow> False"
  proof -
    fix h assume "h \<in> set (pending_tasks (cancel_opt (ib_task (iw_binding w)) (iw_taskQueue w)))"
    then have h: "h < length (iw_taskQueue w)"
      and s: "task_status (cancel_opt (ib_task (iw_binding w)) (iw_taskQueue w) ! h) = Pending"
      by (simp_all add: in_pending_tasks)
    from h s have p: "task_status (iw_taskQueue w ! h) = Pending"
      by (simp add: cancel_opt_status split: if_splits)
    with inv h have "ib_task (iw_binding w) = Some h"
      by (simp add: ib_inv_iff)
    with h s p show False
      by (simp add: cancel_opt_status)
  qed
  then have "pending_tasks (cancel_opt (ib_task (iw_binding w)) (iw_taskQueue w)) = []"
    by (cases "pending_tasks (cancel_opt (ib_task (iw_binding w)) (iw_taskQueue w))") auto
  then show ?thesis
    by (simp add: IB_unbind_queue [OF bound])
qed

lemma ib_inv_IB_unbind:
  assumes "ib_inv w"
  shows "ib_inv (IB_unbind flags w)"
proof (cases "ib_isBound (iw_binding w)")
  case False
  with assms show ?thesis by (simp add: IB_unbind_def)
next
  case True
  from IB_unbind_no_pending [OF assms True, of flags] IB_unbind_queue(2) [OF True, of flags]
  show ?thesis
    by (simp add: ib_inv_def handle_ok_def)
qed

lemma ib_inv_fold_CB_bind:
  "ib_inv w \<Longrightarrow> ib_inv (fold (\<lambda>i. CB_bind K i flags scope hostScope) is w)"
  by (rule ib_inv_frame) simp_all

lemma ib_inv_IB_bind:
  assumes "ib_inv w"
  shows "ib_inv (IB_bind K flags scope hostScope w)"
proof (cases "ib_isBound (iw_binding w) \<and> ib_scope (iw_binding w) = Some scope")
  case True
  with assms show ?thesis by (simp add: IB_bind_def)
next
  case False
  let ?w1 = "if ib_isBound (iw_binding w) then IB_unbind flags w else w"
  let ?w2 = "?w1\<lparr>iw_binding := (iw_binding ?w1)\<lparr>ib_isBound := True, ib_scope := Some scope\<rparr>\<rparr>"
  have 1: "ib_inv ?w1"
    using assms by (simp add: ib_inv_IB_unbind)
  have 2: "ib_inv ?w2"
    by (rule ib_inv_frame [OF 1]) simp_all
  have "ib_inv (IB_updateTarget K JUndefined flags
          (fold (\<lambda>i. CB_bind K i flags scope hostScope) [0..<length (partBindings (iw_binding ?w2))] ?w2))"
    by (intro ib_inv_IB_updateTarget ib_inv_fold_CB_bind 2)
  moreover have "IB_bind K flags scope hostScope w = IB_updateTarget K JUndefined flags
          (fold (\<lambda>i. CB_bind K i flags scope hostScope) [0..<length (partBindings (iw_binding ?w2))] ?w2)"
    using False by (cases "ib_isBound (iw_binding w)") (simp_all add: IB_bind_def Let_def)
  ultimately show ?thesis
    by (simp only:)
qed

text \<open>
  For the interpolation binding and its parts: \<^verbatim>\<open>$unbind\<close> of a bound binding
  leaves no task pending and no handle, so a later flush changes nothing, and a
  \<^verbatim>\<open>handleChange\<close> of any part, which is then unbound, changes nothing either. The same
  \<^verbatim>\<open>isBound\<close> guard makes \<^verbatim>\<open>handleChange\<close> of an unbound \<^verbatim>\<open>ContentBinding2\<close> return at once.
\<close>

lemma IB_unbind_then_quiet:
  assumes inv: "ib_inv w" and bound: "ib_isBound (iw_binding w)"
  shows "pending_tasks (iw_taskQueue (IB_unbind flags w)) = []
       \<and> ib_task (iw_binding (IB_unbind flags w)) = None
       \<and> IB_flush (IB_unbind flags w) = IB_unbind flags w
       \<and> CB_handleChange K i nv ov flags' (IB_unbind flags w) = IB_unbind flags w"
proof -
  note p = IB_unbind_no_pending [OF inv bound, of flags]
  have h: "CB_handleChange K i nv ov flags' (IB_unbind flags w) = IB_unbind flags w"
  proof (cases "i < length (partBindings (iw_binding w))")
    case True
    from parts_unbound_IB_unbind [OF bound True, of flags] show ?thesis
      by (rule CB_handleChange_unbound)
  next
    case False
    then show ?thesis
      by (simp add: CB_handleChange_def)
  qed
  from p IB_unbind_queue(2) [OF bound, of flags] IB_flush_none_pending [OF p] h
  show ?thesis by simp
qed

lemma example_bound_inv: "ib_inv example_bound"
  by (simp add: example_bound_eval ib_inv_def handle_ok_def pending_tasks_def)

text \<open>
  The scenario of the specification: two changes in one turn. The first task is canceled,
  the second is pending, and the flush writes \<open>"W and Y"\<close> only.
\<close>

lemma example_two_changes_flush:
  "map task_status (iw_taskQueue example_two_changes) = [Canceled, Pending]
   \<and> iw_target example_two_changes = JStr ''X and Y''
   \<and> iw_trace (IB_flush example_two_changes)
       = iw_trace example_bound @ [SetValue (JStr ''W and Y'') 0]
   \<and> iw_target (IB_flush example_two_changes) = JStr ''W and Y''"
  by (simp add: example_two_changes_def example_bound_eval IB_defs example_defs obs_defs js_defs
      queue_defs Let_def upt_0_2 concat_loop.simps)


section \<open>Pending writes across unbind and rebind\<close>

lemma example_text_pending_eval:
  "example_text_pending =
     \<lparr>cw_store = example_store (JStr ''1'') JUndefined,
      cw_binding =
        \<lparr>cb_sourceExpression = access_scope ''a'', cb_mode = 2, cb_value = JStr ''1'',
         cb_scope = Some 7, cb_hostScope = None, cb_task = Some 0, cb_isBound = True,
         cb_obs = \<lparr>version = 0, slots = [(Property 7 ''a'', 0)]\<rparr>\<rparr>,
      cw_domWriteQueue =
        [\<lparr>task_status = Pending, task_work = (JStr ''Z'', 0),
          task_options = \<lparr>reusable = False, preempt = True\<rparr>\<rparr>],
      cw_textContent = ''1'', cw_target_has_parent = True,
      cw_before_target = [], cw_trace = [Evaluate True, SetTextContent ''1'']\<rparr>"
  by (simp add: example_text_pending_def example_text_bound_eval CB2_defs IB_defs example_defs
      obs_defs js_defs queue_defs Let_def)

text \<open>
  C4 at the failing input: a bound \<^verbatim>\<open>ContentBinding2\<close> holds a pending write of \<open>"Z"\<close>;
  \<^verbatim>\<open>$unbind\<close> leaves the task pending and the handle in place; the flush that follows runs
  the task, which writes \<open>"Z"\<close> to the text node of the unbound binding.
\<close>

theorem C4_text_unbind_keeps_task_pending:
  "cb_isBound (cw_binding example_text_pending)
   \<and> cb_task (cw_binding example_text_pending) = Some 0
   \<and> map task_status (cw_domWriteQueue example_text_pending) = [Pending]
   \<and> \<not> cb_isBound (cw_binding (CB2_unbind 0 example_text_pending))
   \<and> cb_task (cw_binding (CB2_unbind 0 example_text_pending)) = Some 0
   \<and> map task_status (cw_domWriteQueue (CB2_unbind 0 example_text_pending)) = [Pending]
   \<and> cw_textContent (CB2_unbind 0 example_text_pending) = ''1''
   \<and> cw_textContent (CB2_flush (CB2_unbind 0 example_text_pending)) = ''Z''
   \<and> cw_trace (CB2_flush (CB2_unbind 0 example_text_pending))
       = cw_trace (CB2_unbind 0 example_text_pending) @ [SetTextContent ''Z'']"
  by (simp add: example_text_pending_eval CB2_defs IB_defs example_defs obs_defs js_defs queue_defs
      Let_def)

text \<open>
  C2 at the failing input: after the pending write of \<open>"Z"\<close>, the binding is unbound, bound
  again and notified of \<open>"W"\<close>, all before the flush. \<^verbatim>\<open>$unbind\<close> did not cancel the first
  task and \<^verbatim>\<open>updateTarget\<close>, run by \<^verbatim>\<open>$bind\<close>, dropped its handle; the second
  \<^verbatim>\<open>handleChange\<close> finds no task to cancel. Two tasks of the one binding are pending, and
  the flush writes the stale \<open>"Z"\<close> before \<open>"W"\<close>.
\<close>

theorem C2_text_rebind_leaves_two_tasks_pending:
  "cb_isBound (cw_binding example_text_rebound)
   \<and> pending_tasks (cw_domWriteQueue example_text_rebound) = [0, 1]
   \<and> map task_work (cw_domWriteQueue example_text_rebound) = [(JStr ''Z'', 0), (JStr ''W'', 0)]
   \<and> cb_task (cw_binding example_text_rebound) = Some 1
   \<and> cw_trace (CB2_flush example_text_rebound)
       = cw_trace example_text_rebound @ [SetTextContent ''Z'', SetTextContent ''W'']"
  by (simp add: example_text_rebound_def example_text_pending_eval CB2_defs IB_defs example_defs
      obs_defs js_defs queue_defs pending_tasks_def Let_def upt_0_2)


end
